theory Spec2Isabelle
  imports Main "HOL-Library.Log_Nat"
begin

section \<open>Python floats\<close>

text \<open>
  A Python \<^verbatim>\<open>float\<close> is an IEEE 754 binary64 number. Every finite binary64 value is an
  integer multiple of \<open>2 ^ -1074\<close> (the smallest subnormal), so a finite float is kept as
  a sign and a magnitude counted in that unit: \<open>Fin s k\<close> stands for
  \<open>(-1) ^ s * k * 2 ^ -1074\<close>, with \<open>s = True\<close> for a set sign bit. \<open>1.0\<close> is
  \<open>Fin False (2 ^ 1074)\<close>; \<open>Fin True 0\<close> is \<open>-0.0\<close>.
\<close>

datatype pyfloat = NaN | Infty bool | Fin bool nat

definition units :: "bool \<Rightarrow> nat \<Rightarrow> int" where
  "units sg k = (if sg then - int k else int k)"

text \<open>
  Round to nearest, ties to even, on a magnitude: keep the 53 leading bits.
  \<open>floorlog 2 n\<close> is the bit length of \<open>n\<close>.
\<close>

definition round_mag :: "nat \<Rightarrow> nat" where
  "round_mag n =
     (let b = floorlog 2 n in
      if b \<le> 53 then n
      else let s = b - 53; q = n div 2 ^ s; r = n mod 2 ^ s in
        if 2 ^ s < 2 * r \<or> (2 * r = 2 ^ s \<and> odd q) then (q + 1) * 2 ^ s else q * 2 ^ s)"

text \<open>A rounded magnitude of \<open>2 ^ 1024\<close> (\<open>2 ^ 2098\<close> units) or more overflows to infinity.\<close>

definition round_units :: "bool \<Rightarrow> nat \<Rightarrow> pyfloat" where
  "round_units sg n = (let m = round_mag n in if 2 ^ 2098 \<le> m then Infty sg else Fin sg m)"

definition round_int :: "int \<Rightarrow> pyfloat" where
  "round_int z = round_units (z < 0) (nat \<bar>z\<bar>)"

text \<open>The values a binary64 can hold: at most 53 significant bits, below \<open>2 ^ 1024\<close>.\<close>

definition representable :: "nat \<Rightarrow> bool" where
  "representable k \<longleftrightarrow> k < 2 ^ 2098 \<and> round_mag k = k"

fun is_float :: "pyfloat \<Rightarrow> bool" where
  "is_float (Fin s k) = representable k"
| "is_float _ = True"

fun fneg :: "pyfloat \<Rightarrow> pyfloat" where
  "fneg NaN = NaN"
| "fneg (Infty s) = Infty (\<not> s)"
| "fneg (Fin s k) = Fin (\<not> s) k"

text \<open>
  \<open>x + y\<close>: the exact sum of two finite floats is again a multiple of the unit and is
  rounded once. An exact zero sum is \<open>-0.0\<close> only when both operands are \<open>-0.0\<close>.
\<close>

fun fadd :: "pyfloat \<Rightarrow> pyfloat \<Rightarrow> pyfloat" where
  "fadd (Fin s a) (Fin t b) =
     (let z = units s a + units t b in
      if z = 0 then Fin (s \<and> t) 0 else round_int z)"
| "fadd (Infty s) (Infty t) = (if s = t then Infty s else NaN)"
| "fadd (Infty s) (Fin t b) = Infty s"
| "fadd (Fin s a) (Infty t) = Infty t"
| "fadd NaN y = NaN"
| "fadd x NaN = NaN"

definition fsub :: "pyfloat \<Rightarrow> pyfloat \<Rightarrow> pyfloat" where
  "fsub x y = fadd x (fneg y)"

subsection \<open>Numbers and their comparison\<close>

text \<open>
  Python compares an \<^verbatim>\<open>int\<close> with a \<^verbatim>\<open>float\<close> by their exact values. Both are
  mapped to an exact extended value, again in units of \<open>2 ^ -1074\<close>.
\<close>

datatype pynum = NumF pyfloat | NumI int

datatype xval = XNaN | XInf bool | XFin int

fun xval_of :: "pynum \<Rightarrow> xval" where
  "xval_of (NumF NaN) = XNaN"
| "xval_of (NumF (Infty s)) = XInf s"
| "xval_of (NumF (Fin s k)) = XFin (units s k)"
| "xval_of (NumI n) = XFin (n * 2 ^ 1074)"

fun xle :: "xval \<Rightarrow> xval \<Rightarrow> bool" where
  "xle (XFin a) (XFin b) = (a \<le> b)"
| "xle (XInf s) (XInf t) = (s \<or> \<not> t)"
| "xle (XInf s) (XFin b) = s"
| "xle (XFin a) (XInf t) = (\<not> t)"
| "xle XNaN y = False"
| "xle x XNaN = False"

fun xlt :: "xval \<Rightarrow> xval \<Rightarrow> bool" where
  "xlt (XFin a) (XFin b) = (a < b)"
| "xlt (XInf s) (XInf t) = (s \<and> \<not> t)"
| "xlt (XInf s) (XFin b) = s"
| "xlt (XFin a) (XInf t) = (\<not> t)"
| "xlt XNaN y = False"
| "xlt x XNaN = False"

fun xeq :: "xval \<Rightarrow> xval \<Rightarrow> bool" where
  "xeq (XFin a) (XFin b) = (a = b)"
| "xeq (XInf s) (XInf t) = (s = t)"
| "xeq (XInf s) (XFin b) = False"
| "xeq (XFin a) (XInf t) = False"
| "xeq XNaN y = False"
| "xeq x XNaN = False"

definition num_le :: "pynum \<Rightarrow> pynum \<Rightarrow> bool" where
  "num_le a b = xle (xval_of a) (xval_of b)"

definition num_eq :: "pynum \<Rightarrow> pynum \<Rightarrow> bool" where
  "num_eq a b = xeq (xval_of a) (xval_of b)"

definition fle :: "pyfloat \<Rightarrow> pyfloat \<Rightarrow> bool" where
  "fle x y = num_le (NumF x) (NumF y)"

definition flt :: "pyfloat \<Rightarrow> pyfloat \<Rightarrow> bool" where
  "flt x y = xlt (xval_of (NumF x)) (xval_of (NumF y))"

definition feq :: "pyfloat \<Rightarrow> pyfloat \<Rightarrow> bool" where
  "feq x y = num_eq (NumF x) (NumF y)"

text \<open>The builtin \<^verbatim>\<open>max(a, b)\<close> keeps \<open>a\<close> unless \<open>b > a\<close>.\<close>

definition py_max :: "pyfloat \<Rightarrow> pyfloat \<Rightarrow> pyfloat" where
  "py_max a b = (if flt a b then b else a)"

datatype error = ValueError | TypeError | OverflowError | IndexError

text \<open>
  \<^verbatim>\<open>float(x)\<close>: the identity on a float; an int is rounded to the nearest float, and
  one that rounds to \<open>2 ^ 1024\<close> or beyond raises \<^verbatim>\<open>OverflowError\<close>.
\<close>

fun py_float :: "pynum \<Rightarrow> error + pyfloat" where
  "py_float (NumF x) = Inr x"
| "py_float (NumI n) =
     (case round_int (n * 2 ^ 1074) of
        Fin s k \<Rightarrow> Inr (Fin s k)
      | _ \<Rightarrow> Inl OverflowError)"

definition f_zero :: pyfloat where "f_zero = Fin False 0"
definition f_one :: pyfloat where "f_one = Fin False (2 ^ 1074)"
definition f_half :: pyfloat where "f_half = Fin False (2 ^ 1073)"
definition f_inf :: pyfloat where "f_inf = Infty False"

section \<open>Python values\<close>

text \<open>
  The argument of \<^verbatim>\<open>_check_input\<close> is dynamically typed. \<open>PySeq\<close> is a list or a
  tuple, \<open>PyDict\<close> stands for an object that is neither a number nor a
  \<^verbatim>\<open>collections.abc.Sequence\<close>.
\<close>

datatype pyval =
    PyNone
  | PyFloat pyfloat
  | PyInt int
  | PyStr string
  | PySeq "pyval list"
  | PyDict

text \<open>The items of a \<^verbatim>\<open>Sequence\<close>; the items of a string are its one-character strings.\<close>

fun items :: "pyval \<Rightarrow> pyval list option" where
  "items (PySeq xs) = Some xs"
| "items (PyStr s) = Some (map (\<lambda>c. PyStr [c]) s)"
| "items _ = None"

fun num_of :: "pyval \<Rightarrow> pynum option" where
  "num_of (PyFloat x) = Some (NumF x)"
| "num_of (PyInt n) = Some (NumI n)"
| "num_of _ = None"

section \<open>ColorJitter\<close>

subsection \<open>\<^verbatim>\<open>_check_input\<close>\<close>

text \<open>
  The last line of \<^verbatim>\<open>_check_input\<close>:
  \<^verbatim>\<open>return None if value[0] == value[1] == center else (float(value[0]), float(value[1]))\<close>
\<close>

definition check_result :: "pynum \<Rightarrow> pynum \<Rightarrow> pyfloat \<Rightarrow> error + (pyfloat \<times> pyfloat) option" where
  "check_result v0 v1 center =
     (if num_eq v0 v1 \<and> num_eq v1 (NumF center) then Inr None
      else (case py_float v0 of
              Inl e \<Rightarrow> Inl e
            | Inr lo \<Rightarrow> (case py_float v1 of
                          Inl e \<Rightarrow> Inl e
                        | Inr hi \<Rightarrow> Inr (Some (lo, hi)))))"

text \<open>
  \<^verbatim>\<open>_check_input(value, name, center, bound, clip_first_on_zero)\<close>. The \<open>name\<close> only
  appears in the messages of the exceptions and is left out. The chained comparison
  \<^verbatim>\<open>bound[0] <= value[0] <= value[1] <= bound[1]\<close> is evaluated left to right and stops
  at the first false link; a float compared with anything but a number raises
  \<^verbatim>\<open>TypeError\<close>. The literal \<^verbatim>\<open>0\<close> that the callers pass as a center or bound behaves in
  every comparison and sum here as \<open>0.0\<close>.
\<close>

definition check_input ::
  "pyval \<Rightarrow> pyfloat \<Rightarrow> pyfloat \<times> pyfloat \<Rightarrow> bool \<Rightarrow> error + (pyfloat \<times> pyfloat) option" where
  "check_input val center bound clip_first_on_zero =
     (case val of
        PyNone \<Rightarrow> Inr None
      | PyFloat v \<Rightarrow>
          if flt v f_zero then Inl ValueError
          else
            let lo = fsub center v;
                hi = fadd center v;
                lo = (if clip_first_on_zero then py_max lo f_zero else lo)
            in check_result (NumF lo) (NumF hi) center
      | _ \<Rightarrow>
          (case items val of
             Some [v0, v1] \<Rightarrow>
               (case num_of v0 of
                  None \<Rightarrow> Inl TypeError
                | Some n0 \<Rightarrow>
                    if \<not> num_le (NumF (fst bound)) n0 then Inl ValueError
                    else (case num_of v1 of
                            None \<Rightarrow> Inl TypeError
                          | Some n1 \<Rightarrow>
                              if \<not> num_le n0 n1 then Inl ValueError
                              else if \<not> num_le n1 (NumF (snd bound)) then Inl ValueError
                              else check_result n0 n1 center))
           | _ \<Rightarrow> Inl TypeError))"

text \<open>The defaults of \<^verbatim>\<open>_check_input\<close>: \<^verbatim>\<open>center=1.0, bound=(0, float("inf"))\<close>.\<close>

definition default_bound :: "pyfloat \<times> pyfloat" where
  "default_bound = (f_zero, f_inf)"

subsection \<open>Construction\<close>

text \<open>
  The four ranges of a \<^verbatim>\<open>ColorJitter\<close>, each \<open>None\<close> when the adjustment is off.
\<close>

record ColorJitter =
  brightness :: "(pyfloat \<times> pyfloat) option"
  contrast :: "(pyfloat \<times> pyfloat) option"
  saturation :: "(pyfloat \<times> pyfloat) option"
  hue :: "(pyfloat \<times> pyfloat) option"

text \<open>
  \<^verbatim>\<open>__init__\<close> checks the four arguments in order; the first exception ends it. The hue
  is checked with \<^verbatim>\<open>center=0, bound=(-0.5, 0.5), clip_first_on_zero=False\<close>.
\<close>

definition hue_bound :: "pyfloat \<times> pyfloat" where
  "hue_bound = (Fin True (2 ^ 1073), Fin False (2 ^ 1073))"

definition ColorJitter_init :: "pyval \<Rightarrow> pyval \<Rightarrow> pyval \<Rightarrow> pyval \<Rightarrow> error + ColorJitter" where
  "ColorJitter_init b c s h =
     (case check_input b f_one default_bound True of
        Inl e \<Rightarrow> Inl e
      | Inr b' \<Rightarrow>
     (case check_input c f_one default_bound True of
        Inl e \<Rightarrow> Inl e
      | Inr c' \<Rightarrow>
     (case check_input s f_one default_bound True of
        Inl e \<Rightarrow> Inl e
      | Inr s' \<Rightarrow>
     (case check_input h f_zero hue_bound False of
        Inl e \<Rightarrow> Inl e
      | Inr h' \<Rightarrow>
          Inr \<lparr>brightness = b', contrast = c', saturation = s', hue = h'\<rparr>))))"

subsection \<open>Sampling the parameters\<close>

text \<open>
  The random generator of torch is a state \<open>'g\<close> that every draw reads and advances.
  \<open>randperm g n\<close> is \<^verbatim>\<open>torch.randperm(n)\<close> and \<open>uniform g left right\<close> is the draw
  \<^verbatim>\<open>float(torch.distributions.Uniform(left, right).sample())\<close> for \<open>left < right\<close>; both
  belong to torch and are taken as they come.
\<close>

record 'g generator =
  randperm :: "'g \<Rightarrow> nat \<Rightarrow> int list \<times> 'g"
  uniform :: "'g \<Rightarrow> pyfloat \<Rightarrow> pyfloat \<Rightarrow> pyfloat \<times> 'g"

record jitter_params =
  fn_idx :: "int list"
  brightness_factor :: "pyfloat option"
  contrast_factor :: "pyfloat option"
  saturation_factor :: "pyfloat option"
  hue_factor :: "pyfloat option"

text \<open>
  \<^verbatim>\<open>None if self.brightness is None else self._generate_value(self.brightness[0], self.brightness[1])\<close>.
  The constructor of \<^verbatim>\<open>Uniform\<close> checks its arguments and raises \<^verbatim>\<open>ValueError\<close> unless
  \<open>left < right\<close>, so a range with equal ends, such as \<open>(0.5, 0.5)\<close>, fails here.
\<close>

definition generate_value ::
  "'g generator \<Rightarrow> 'g \<Rightarrow> (pyfloat \<times> pyfloat) option \<Rightarrow> error + (pyfloat option \<times> 'g)" where
  "generate_value R g rng =
     (case rng of
        None \<Rightarrow> Inr (None, g)
      | Some (left, right) \<Rightarrow>
          if flt left right then (let (x, g') = uniform R g left right in Inr (Some x, g'))
          else Inl ValueError)"

text \<open>The four factors are drawn in order; the first exception ends \<^verbatim>\<open>_get_params\<close>.\<close>

definition ColorJitter_get_params ::
  "'g generator \<Rightarrow> ColorJitter \<Rightarrow> 'g \<Rightarrow> error + (jitter_params \<times> 'g)" where
  "ColorJitter_get_params R self g0 =
     (let (idx, g1) = randperm R g0 4 in
      case generate_value R g1 (brightness self) of
        Inl e \<Rightarrow> Inl e
      | Inr (b, g2) \<Rightarrow>
     (case generate_value R g2 (contrast self) of
        Inl e \<Rightarrow> Inl e
      | Inr (c, g3) \<Rightarrow>
     (case generate_value R g3 (saturation self) of
        Inl e \<Rightarrow> Inl e
      | Inr (s, g4) \<Rightarrow>
     (case generate_value R g4 (hue self) of
        Inl e \<Rightarrow> Inl e
      | Inr (h, g5) \<Rightarrow>
          Inr (\<lparr>fn_idx = idx, brightness_factor = b, contrast_factor = c,
                saturation_factor = s, hue_factor = h\<rparr>, g5)))))"

subsection \<open>\<^verbatim>\<open>_transform\<close>\<close>

text \<open>
  The pixel operations of \<^verbatim>\<open>torchvision.prototype.transforms.functional\<close> are not part
  of this file; they are the fields of \<open>F\<close>, over any type \<open>'img\<close> of inputs.
\<close>

record 'img functional =
  adjust_brightness :: "'img \<Rightarrow> pyfloat \<Rightarrow> 'img"
  adjust_contrast :: "'img \<Rightarrow> pyfloat \<Rightarrow> 'img"
  adjust_saturation :: "'img \<Rightarrow> pyfloat \<Rightarrow> 'img"
  adjust_hue :: "'img \<Rightarrow> pyfloat \<Rightarrow> 'img"
  equalize :: "'img \<Rightarrow> 'img"

text \<open>The body of the loop over \<^verbatim>\<open>params["fn_idx"]\<close>, one \<^verbatim>\<open>if\<close>/\<^verbatim>\<open>elif\<close> chain.\<close>

definition jitter_step :: "'img functional \<Rightarrow> jitter_params \<Rightarrow> 'img \<Rightarrow> int \<Rightarrow> 'img" where
  "jitter_step F P output fn_id =
     (if fn_id = 0 \<and> brightness_factor P \<noteq> None then
        adjust_brightness F output (the (brightness_factor P))
      else if fn_id = 1 \<and> contrast_factor P \<noteq> None then
        adjust_contrast F output (the (contrast_factor P))
      else if fn_id = 2 \<and> saturation_factor P \<noteq> None then
        adjust_saturation F output (the (saturation_factor P))
      else if fn_id = 3 \<and> hue_factor P \<noteq> None then
        adjust_hue F output (the (hue_factor P))
      else output)"

fun jitter_loop :: "'img functional \<Rightarrow> jitter_params \<Rightarrow> 'img \<Rightarrow> int list \<Rightarrow> 'img" where
  "jitter_loop F P output [] = output"
| "jitter_loop F P output (fn_id # rest) = jitter_loop F P (jitter_step F P output fn_id) rest"

definition ColorJitter_transform :: "'img functional \<Rightarrow> 'img \<Rightarrow> jitter_params \<Rightarrow> 'img" where
  "ColorJitter_transform F inpt P = jitter_loop F P inpt (fn_idx P)"

text \<open>
  Modelled from the spec: applying a transform (\<^verbatim>\<open>Transform.forward\<close>, which is not in
  this file). Section 4.3: "Operation apply(input): 1. Sample parameters via 4.2.
  2. Iterate the sampled permutation in order ...".
\<close>

definition ColorJitter_forward ::
  "'g generator \<Rightarrow> 'img functional \<Rightarrow> ColorJitter \<Rightarrow> 'img \<Rightarrow> 'g \<Rightarrow> error + ('img \<times> 'g)" where
  "ColorJitter_forward R F self inpt g =
     (case ColorJitter_get_params R self g of
        Inl e \<Rightarrow> Inl e
      | Inr (params, g') \<Rightarrow> Inr (ColorJitter_transform F inpt params, g'))"

text \<open>
  What section 4.3 of the spec promises, in its own words: the calls made are those of
  the enabled operations, in the order of the permutation. \<open>factor P i\<close> is the factor
  that belongs to index \<open>i\<close>, \<open>enabled P\<close> the indices of the permutation whose factor
  is not \<open>None\<close>, in the permutation's order, and \<open>apply_op\<close> the external operation
  that belongs to an index.
\<close>

definition factor :: "jitter_params \<Rightarrow> int \<Rightarrow> pyfloat option" where
  "factor P i =
     (if i = 0 then brightness_factor P
      else if i = 1 then contrast_factor P
      else if i = 2 then saturation_factor P
      else if i = 3 then hue_factor P
      else None)"

definition enabled :: "jitter_params \<Rightarrow> int list" where
  "enabled P = filter (\<lambda>i. factor P i \<noteq> None) (fn_idx P)"

definition apply_op :: "'img functional \<Rightarrow> jitter_params \<Rightarrow> 'img \<Rightarrow> int \<Rightarrow> 'img" where
  "apply_op F P output i =
     (if i = 0 then adjust_brightness F output (the (brightness_factor P))
      else if i = 1 then adjust_contrast F output (the (contrast_factor P))
      else if i = 2 then adjust_saturation F output (the (saturation_factor P))
      else adjust_hue F output (the (hue_factor P)))"

section \<open>Random channel shuffle\<close>

text \<open>
  Modelled from the spec: the kinds of input and the color space of an image, whose
  classes (\<^verbatim>\<open>features.Image\<close>, \<^verbatim>\<open>features.ColorSpace\<close>) and test
  (\<^verbatim>\<open>is_simple_tensor\<close>) are declared outside this file. Section 3: an input is "one of
  {dense-array image, structured image record, encoded-image object}", and anything else
  (section 7: "unsupported input variants"), such as a bounding box. Glossary: the color
  space tag is a "metadata label describing channel semantics (e.g., RGB); set to
  other/unknown once channels are permuted".

  A tensor of shape \<open>(..., C, H, W)\<close> is kept as the list of its \<open>C\<close> channel slices
  \<^verbatim>\<open>t[..., c, :, :]\<close>, each of type \<open>'pl\<close> and holding every pixel of that channel. A PIL
  image is opaque (\<open>'pil\<close>).
\<close>

datatype ColorSpace = OTHER | NamedSpace string

record 'pl Image =
  data :: "'pl list"
  color_space :: ColorSpace

datatype ('pl, 'pil, 'o) input =
    FeaturesImage "'pl Image"
  | PILImage 'pil
  | SimpleTensor "'pl list"
  | OtherInput 'o

fun isinstance_Image :: "('pl, 'pil, 'o) input \<Rightarrow> bool" where
  "isinstance_Image (FeaturesImage _) = True"
| "isinstance_Image _ = False"

fun isinstance_PIL :: "('pl, 'pil, 'o) input \<Rightarrow> bool" where
  "isinstance_PIL (PILImage _) = True"
| "isinstance_PIL _ = False"

fun is_simple_tensor :: "('pl, 'pil, 'o) input \<Rightarrow> bool" where
  "is_simple_tensor (SimpleTensor _) = True"
| "is_simple_tensor _ = False"

text \<open>
  \<^verbatim>\<open>image[..., permutation, :, :]\<close>: the channels picked by an integer index tensor.
  An index \<open>i\<close> with \<open>-C \<le> i < C\<close> picks a channel, counting from the end when negative;
  any other index raises \<^verbatim>\<open>IndexError\<close>.
\<close>

fun index_channels :: "'pl list \<Rightarrow> int list \<Rightarrow> error + 'pl list" where
  "index_channels img [] = Inr []"
| "index_channels img (i # permutation) =
     (let c = int (length img) in
      if i < - c \<or> c \<le> i then Inl IndexError
      else (case index_channels img permutation of
              Inl e \<Rightarrow> Inl e
            | Inr out \<Rightarrow> Inr (img ! nat (if i < 0 then i + c else i) # out)))"

text \<open>
  Modelled from the spec: \<^verbatim>\<open>features.Image.new_like(inpt, output, color_space=...)\<close>,
  which is not in this file. Section 4.4: the result is the image with the new data,
  "tagging the output's color-space metadata" with the given tag.
\<close>

definition new_like :: "'pl Image \<Rightarrow> 'pl list \<Rightarrow> ColorSpace \<Rightarrow> 'pl Image" where
  "new_like other d cs = other\<lparr>data := d, color_space := cs\<rparr>"

text \<open>
  \<^verbatim>\<open>_RandomChannelShuffle._transform\<close>. The conversions \<^verbatim>\<open>_F.pil_to_tensor\<close> and
  \<^verbatim>\<open>_F.to_pil_image\<close> are outside this file and are parameters.
\<close>

definition RandomChannelShuffle_transform ::
  "('pil \<Rightarrow> 'pl list) \<Rightarrow> ('pl list \<Rightarrow> 'pil) \<Rightarrow> ('pl, 'pil, 'o) input \<Rightarrow> int list
     \<Rightarrow> error + ('pl, 'pil, 'o) input" where
  "RandomChannelShuffle_transform pil_to_tensor to_pil_image inpt permutation =
     (if \<not> ((isinstance_Image inpt \<or> isinstance_PIL inpt) \<or> is_simple_tensor inpt) then Inr inpt
      else
        (case inpt of
           PILImage im \<Rightarrow>
             (case index_channels (pil_to_tensor im) permutation of
                Inl e \<Rightarrow> Inl e
              | Inr output \<Rightarrow> Inr (PILImage (to_pil_image output)))
         | FeaturesImage im \<Rightarrow>
             (case index_channels (data im) permutation of
                Inl e \<Rightarrow> Inl e
              | Inr output \<Rightarrow> Inr (FeaturesImage (new_like im output OTHER)))
         | SimpleTensor img \<Rightarrow>
             (case index_channels img permutation of
                Inl e \<Rightarrow> Inl e
              | Inr output \<Rightarrow> Inr (SimpleTensor output))
         | OtherInput x \<Rightarrow> Inr inpt))"

text \<open>The pixel at row \<open>y\<close>, column \<open>x\<close> of channel \<open>c\<close>, for channel slices that are matrices.\<close>

definition pixel :: "'px list list list \<Rightarrow> nat \<Rightarrow> nat \<Rightarrow> nat \<Rightarrow> 'px" where
  "pixel img c y x = img ! c ! y ! x"

section \<open>Random photometric distort\<close>

text \<open>
  The five sub-transforms are callables. Calling one runs its own sampling on the shared
  generator, so a call is a function on a state \<open>'s\<close> that holds the input together
  with whatever the sub-transform reads and advances.
\<close>

record 's RandomPhotometricDistort =
  sub_brightness :: "'s \<Rightarrow> 's"
  sub_contrast :: "'s \<Rightarrow> 's"
  sub_hue :: "'s \<Rightarrow> 's"
  sub_saturation :: "'s \<Rightarrow> 's"
  sub_channel_shuffle :: "'s \<Rightarrow> 's"

text \<open>The dictionary of \<^verbatim>\<open>_get_params\<close>: six gates and \<^verbatim>\<open>contrast_before\<close>.\<close>

record distort_params =
  gate_brightness :: bool
  gate_contrast1 :: bool
  gate_saturation :: bool
  gate_hue :: bool
  gate_contrast2 :: bool
  gate_channel_shuffle :: bool
  contrast_before :: bool

definition RandomPhotometricDistort_transform ::
  "'s RandomPhotometricDistort \<Rightarrow> 's \<Rightarrow> distort_params \<Rightarrow> 's" where
  "RandomPhotometricDistort_transform self inpt params =
     (let inpt = (if gate_brightness params then sub_brightness self inpt else inpt);
          inpt = (if gate_contrast1 params \<and> contrast_before params
                  then sub_contrast self inpt else inpt);
          inpt = (if gate_saturation params then sub_saturation self inpt else inpt);
          inpt = (if gate_saturation params then sub_saturation self inpt else inpt);
          inpt = (if gate_contrast2 params \<and> \<not> contrast_before params
                  then sub_contrast self inpt else inpt);
          inpt = (if gate_channel_shuffle params then sub_channel_shuffle self inpt else inpt)
      in inpt)"

text \<open>
  The order of section 4.5 of the spec, in its own words, as the list of sub-transforms
  to call.
\<close>

datatype sub_transform = Brightness | Contrast | Saturation | Hue | ChannelShuffle

definition spec_order :: "distort_params \<Rightarrow> sub_transform list" where
  "spec_order params =
     (if gate_brightness params then [Brightness] else []) @
     (if gate_contrast1 params \<and> contrast_before params then [Contrast] else []) @
     (if gate_saturation params then [Saturation, Saturation] else []) @
     (if gate_contrast2 params \<and> \<not> contrast_before params then [Contrast] else []) @
     (if gate_channel_shuffle params then [ChannelShuffle] else [])"

fun call :: "'s RandomPhotometricDistort \<Rightarrow> 's \<Rightarrow> sub_transform \<Rightarrow> 's" where
  "call self inpt Brightness = sub_brightness self inpt"
| "call self inpt Contrast = sub_contrast self inpt"
| "call self inpt Saturation = sub_saturation self inpt"
| "call self inpt Hue = sub_hue self inpt"
| "call self inpt ChannelShuffle = sub_channel_shuffle self inpt"

section \<open>Random equalize\<close>

definition RandomEqualize_transform :: "'img functional \<Rightarrow> 'img \<Rightarrow> 'img" where
  "RandomEqualize_transform F inpt = equalize F inpt"

text \<open>
  Modelled from the spec: the random-apply policy that \<^verbatim>\<open>RandomEqualize\<close> inherits from
  \<^verbatim>\<open>_RandomApplyTransform\<close> (in \<^verbatim>\<open>_transform.py\<close>, which is not among the sources).
  Section 4.6: "Gated by a single Bernoulli(p) draw (inherited standard random-apply
  policy): when gate is true, replace the img with its histogram-equalized version via
  an external equalization primitive; otherwise pass through unchanged." The draw is a
  uniform \<open>u\<close> in \<open>[0, 1)\<close> and the gate is \<open>u < p\<close>, as \<^verbatim>\<open>torch.rand(6) < self.p\<close>
  makes the gates of \<^verbatim>\<open>RandomPhotometricDistort\<close>.
\<close>

definition unit_interval :: "pyfloat \<Rightarrow> bool" where
  "unit_interval u \<longleftrightarrow> fle f_zero u \<and> flt u f_one"

definition RandomEqualize_forward :: "'img functional \<Rightarrow> pyfloat \<Rightarrow> pyfloat \<Rightarrow> 'img \<Rightarrow> 'img" where
  "RandomEqualize_forward F p u inpt =
     (if flt u p then RandomEqualize_transform F inpt else inpt)"

section \<open>Some floats\<close>

text \<open>
  The floats that Python reads from the literals \<^verbatim>\<open>0.2\<close>, \<^verbatim>\<open>0.8\<close>, \<^verbatim>\<open>1.2\<close>, \<^verbatim>\<open>-0.1\<close>,
  \<^verbatim>\<open>0.6\<close> and \<^verbatim>\<open>0.4\<close>: \<open>0.2\<close> is \<open>3602879701896397 * 2 ^ -54\<close>, and so on. \<open>f_tiny\<close> is
  \<open>2 ^ -60\<close> and \<open>f_absorbed\<close> is \<open>2 ^ -54\<close>, a quarter of the gap between \<open>1.0\<close> and the
  next float.
\<close>

definition f_02 :: pyfloat where "f_02 = Fin False (3602879701896397 * 2 ^ 1020)"
definition f_08 :: pyfloat where "f_08 = Fin False (7205759403792794 * 2 ^ 1021)"
definition f_12 :: pyfloat where "f_12 = Fin False (5404319552844595 * 2 ^ 1022)"
definition f_neg_01 :: pyfloat where "f_neg_01 = Fin True (3602879701896397 * 2 ^ 1019)"
definition f_06 :: pyfloat where "f_06 = Fin False (5404319552844595 * 2 ^ 1021)"
definition f_04 :: pyfloat where "f_04 = Fin False (3602879701896397 * 2 ^ 1021)"
definition f_tiny :: pyfloat where "f_tiny = Fin False (2 ^ 1014)"
definition f_absorbed :: pyfloat where "f_absorbed = Fin False (2 ^ 1020)"

text \<open>
  \<^verbatim>\<open>float(x)\<close> in closed form: the float nearest to \<open>x\<close>, which is \<open>x\<close> itself for a
  float, and \<^verbatim>\<open>OverflowError\<close> for an int of magnitude \<open>2 ^ 1024 - 2 ^ 970\<close> or more, the
  midpoint between the largest float and \<open>2 ^ 1024\<close>. \<open>f_2\<close> is \<open>2.0\<close>.
\<close>

definition float_overflows :: "pynum \<Rightarrow> bool" where
  "float_overflows n = (case n of NumF x \<Rightarrow> False | NumI m \<Rightarrow> 2 ^ 1024 - 2 ^ 970 \<le> \<bar>m\<bar>)"

definition nearest_float :: "pynum \<Rightarrow> pyfloat" where
  "nearest_float n = (case n of NumF x \<Rightarrow> x | NumI m \<Rightarrow> round_int (m * 2 ^ 1074))"

definition f_2 :: pyfloat where "f_2 = Fin False (2 ^ 1075)"

text \<open>
  A well-formed value holds floats that binary64 can represent, as every Python value
  does.
\<close>

fun num_ok :: "pynum \<Rightarrow> bool" where
  "num_ok (NumF x) = is_float x"
| "num_ok (NumI n) = True"

fun well_formed :: "pyval \<Rightarrow> bool" where
  "well_formed (PyFloat x) = is_float x"
| "well_formed (PySeq xs) = (\<forall>x \<in> set xs. well_formed x)"
| "well_formed _ = True"

fun is_nan :: "pyfloat \<Rightarrow> bool" where
  "is_nan NaN = True"
| "is_nan _ = False"

fun is_infty :: "pyfloat \<Rightarrow> bool" where
  "is_infty (Infty s) = True"
| "is_infty _ = False"

definition f_neg_5 :: pyfloat where "f_neg_5 = Fin True (5 * 2 ^ 1074)"
definition f_neg_4 :: pyfloat where "f_neg_4 = Fin True (4 * 2 ^ 1074)"

text \<open>The transform that \<^verbatim>\<open>ColorJitter(brightness=0.2)\<close> constructs.\<close>

definition brightness_only :: ColorJitter where
  "brightness_only =
     \<lparr>brightness = Some (f_08, f_12), contrast = None, saturation = None, hue = None\<rparr>"

section \<open>A recording instance of the pixel operations\<close>

text \<open>
  The external operations, instantiated so that an input is the list of the calls made
  on it so far. Running a transform on the empty list shows which operations it calls
  and in which order.
\<close>

datatype pixel_call =
    AdjustBrightness pyfloat
  | AdjustContrast pyfloat
  | AdjustSaturation pyfloat
  | AdjustHue pyfloat
  | Equalize

definition recorder :: "pixel_call list functional" where
  "recorder =
     \<lparr>adjust_brightness = (\<lambda>log f. log @ [AdjustBrightness f]),
      adjust_contrast = (\<lambda>log f. log @ [AdjustContrast f]),
      adjust_saturation = (\<lambda>log f. log @ [AdjustSaturation f]),
      adjust_hue = (\<lambda>log f. log @ [AdjustHue f]),
      equalize = (\<lambda>log. log @ [Equalize])\<rparr>"

definition sub_recorder :: "sub_transform list RandomPhotometricDistort" where
  "sub_recorder =
     \<lparr>sub_brightness = (\<lambda>log. log @ [Brightness]),
      sub_contrast = (\<lambda>log. log @ [Contrast]),
      sub_hue = (\<lambda>log. log @ [Hue]),
      sub_saturation = (\<lambda>log. log @ [Saturation]),
      sub_channel_shuffle = (\<lambda>log. log @ [ChannelShuffle])\<rparr>"

text \<open>A generator whose draws are fixed, for running the sampling on an example.\<close>

definition fixed_generator :: "unit generator" where
  "fixed_generator =
     \<lparr>randperm = (\<lambda>g n. ([3, 0, 2, 1], g)), uniform = (\<lambda>g left right. (left, g))\<rparr>"

section \<open>Properties of the transforms\<close>

subsection \<open>Rounding\<close>

lemma floorlog_2_eqI: "2 ^ n \<le> x \<Longrightarrow> x < 2 ^ Suc n \<Longrightarrow> floorlog 2 x = Suc n"
  by (intro antisym floorlog_leI floorlog_ge_SucI) auto

lemma round_mag_at:
  assumes "floorlog 2 n = 53 + s" and "0 < s"
  shows "round_mag n =
    (if 2 ^ s < 2 * (n mod 2 ^ s) \<or> (2 * (n mod 2 ^ s) = 2 ^ s \<and> odd (n div 2 ^ s))
     then (n div 2 ^ s + 1) * 2 ^ s else n div 2 ^ s * 2 ^ s)"
  using assms by (simp add: round_mag_def Let_def)

lemma floorlog_range:
  assumes "floorlog 2 n = 53 + s"
  shows "2 ^ (52 + s) \<le> n" and "n < 2 ^ (53 + s)"
proof -
  have "0 < n" using assms by (auto simp: floorlog_def split: if_splits)
  from floorlog_bounds [OF this, of 2] assms show "2 ^ (52 + s) \<le> n" "n < 2 ^ (53 + s)"
    by simp_all
qed

lemma quotient_range:
  assumes "floorlog 2 n = 53 + s"
  shows "2 ^ 52 \<le> n div 2 ^ s" and "n div 2 ^ s < 2 ^ 53"
proof -
  from floorlog_range [OF assms] have lo: "2 ^ 52 * 2 ^ s \<le> n" and hi: "n < 2 ^ 53 * 2 ^ s"
    by (simp_all add: power_add)
  from lo have "2 ^ 52 * 2 ^ s div 2 ^ s \<le> n div 2 ^ s" by (rule div_le_mono)
  then show "2 ^ 52 \<le> n div 2 ^ s" by simp
  from hi show "n div 2 ^ s < 2 ^ 53" by (simp add: less_mult_imp_div_less)
qed

lemma round_mag_between:
  assumes "floorlog 2 n = 53 + s" and "0 < s"
  shows "n div 2 ^ s * 2 ^ s \<le> round_mag n" and "round_mag n \<le> (n div 2 ^ s + 1) * 2 ^ s"
  by (simp_all add: round_mag_at [OF assms])

lemma round_mag_lower:
  assumes "floorlog 2 n = 53 + s" and "0 < s"
  shows "2 ^ (52 + s) \<le> round_mag n"
proof -
  have "(2::nat) ^ (52 + s) = 2 ^ 52 * 2 ^ s" by (simp add: power_add)
  also have "\<dots> \<le> n div 2 ^ s * 2 ^ s"
    using quotient_range(1) [OF assms(1)] by (rule mult_le_mono1)
  also have "\<dots> \<le> round_mag n" by (rule round_mag_between [OF assms])
  finally show ?thesis .
qed

lemma round_mag_upper:
  assumes "floorlog 2 n = 53 + s" and "0 < s"
  shows "round_mag n \<le> 2 ^ (53 + s)"
proof -
  have "round_mag n \<le> (n div 2 ^ s + 1) * 2 ^ s" by (rule round_mag_between [OF assms])
  also have "\<dots> \<le> 2 ^ 53 * 2 ^ s"
    using quotient_range(2) [OF assms(1)] by (intro mult_le_mono1) simp
  finally show ?thesis by (simp add: power_add)
qed

lemma round_mag_same_length:
  assumes a: "floorlog 2 a = 53 + s" and b: "floorlog 2 b = 53 + s" and s: "0 < s" and le: "a \<le> b"
  shows "round_mag a \<le> round_mag b"
proof (cases "a div 2 ^ s < b div 2 ^ s")
  case True
  have "round_mag a \<le> (a div 2 ^ s + 1) * 2 ^ s" by (rule round_mag_between [OF a s])
  also have "\<dots> \<le> b div 2 ^ s * 2 ^ s" using True by (intro mult_le_mono1) simp
  also have "\<dots> \<le> round_mag b" by (rule round_mag_between [OF b s])
  finally show ?thesis .
next
  case False
  moreover have "a div 2 ^ s \<le> b div 2 ^ s" using le by (rule div_le_mono)
  ultimately have q: "a div 2 ^ s = b div 2 ^ s" by simp
  have r: "a mod 2 ^ s \<le> b mod 2 ^ s"
    using le q div_mult_mod_eq [of a "2 ^ s"] div_mult_mod_eq [of b "2 ^ s"]
    by (metis add_le_cancel_left)
  show ?thesis
    using r q by (auto simp: round_mag_at [OF a s] round_mag_at [OF b s])
qed

text \<open>Rounding a magnitude is monotone.\<close>

lemma round_mag_mono:
  assumes "a \<le> b"
  shows "round_mag a \<le> round_mag b"
proof -
  have fl: "floorlog 2 a \<le> floorlog 2 b" using assms by (rule floorlog_mono)
  consider (small) "floorlog 2 b \<le> 53"
    | (mixed) "floorlog 2 a \<le> 53" "53 < floorlog 2 b"
    | (shorter) "53 < floorlog 2 a" "floorlog 2 a < floorlog 2 b"
    | (same) "53 < floorlog 2 a" "floorlog 2 a = floorlog 2 b"
    using fl by linarith
  then show ?thesis
  proof cases
    case small
    with fl assms show ?thesis by (simp add: round_mag_def)
  next
    case mixed
    then obtain s where b: "floorlog 2 b = 53 + s" and s: "0 < s"
      by (metis less_imp_add_positive)
    have "round_mag a = a" using mixed(1) by (simp add: round_mag_def)
    also have "a < 2 ^ 53" using mixed(1) floorlog_leD [of 2 a 53] by simp
    also have "(2::nat) ^ 53 \<le> 2 ^ (52 + s)" using s by (intro power_increasing) simp_all
    also have "\<dots> \<le> round_mag b" by (rule round_mag_lower [OF b s])
    finally show ?thesis by simp
  next
    case shorter
    then obtain s where a: "floorlog 2 a = 53 + s" and s: "0 < s"
      by (metis less_imp_add_positive)
    from shorter a obtain t where b: "floorlog 2 b = 53 + t" and t: "s < t"
      by (metis less_imp_add_positive add.assoc nat_add_left_cancel_less less_add_same_cancel1)
    have "round_mag a \<le> 2 ^ (53 + s)" by (rule round_mag_upper [OF a s])
    also have "\<dots> \<le> 2 ^ (52 + t)" using t by (intro power_increasing) simp_all
    also have "\<dots> \<le> round_mag b" using t by (intro round_mag_lower [OF b]) simp
    finally show ?thesis .
  next
    case same
    then obtain s where a: "floorlog 2 a = 53 + s" and s: "0 < s"
      by (metis less_imp_add_positive)
    with same have b: "floorlog 2 b = 53 + s" by simp
    show ?thesis by (rule round_mag_same_length [OF a b s assms])
  qed
qed

lemma round_mag_zero: "round_mag 0 = 0"
  by (simp add: round_mag_def floorlog_def)

text \<open>
  The rounding of a magnitude given as \<open>q * 2 ^ s + r\<close>, with \<open>q\<close> its 53 leading bits.
\<close>

lemma round_mag_split:
  assumes s: "0 < s" and X: "X = 2 ^ s" and n: "n = q * X + r" and r: "r < X"
    and q: "2 ^ 52 \<le> q" "q < 2 ^ 53"
  shows "round_mag n = (if X < 2 * r \<or> (2 * r = X \<and> odd q) then (q + 1) * X else q * X)"
proof -
  have X0: "0 < X" using X by simp
  have "2 ^ 52 * X \<le> q * X" using q(1) by (rule mult_le_mono1)
  also have "\<dots> \<le> n" using n by simp
  finally have lo: "2 ^ (52 + s) \<le> n" by (simp add: power_add X)
  have "n < q * X + X" using n r by simp
  also have "\<dots> = (q + 1) * X" by simp
  also have "\<dots> \<le> 2 ^ 53 * X" using q(2) by (intro mult_le_mono1) simp
  finally have hi: "n < 2 ^ (53 + s)" by (simp add: power_add X)
  have fl: "floorlog 2 n = 53 + s"
    using floorlog_2_eqI [of "52 + s" n] lo hi by simp
  have dm: "n div X = q" "n mod X = r"
    using r X0 by (simp_all add: n)
  show ?thesis
    using round_mag_at [OF fl s] dm by (simp flip: X)
qed

text \<open>
  What rounding absorbs next to a power of two: up to half a unit in the last place above
  it, up to a quarter below it, and nothing beyond that below it.
\<close>

lemma absorbed_above:
  assumes s: "0 < s" and k: "2 * k \<le> 2 ^ s"
  shows "round_mag (2 ^ (52 + s) + k) = 2 ^ (52 + s)"
proof -
  define X :: nat where "X = 2 ^ s"
  have X2: "2 \<le> X" using s unfolding X_def
    by (metis One_nat_def Suc_leI power_increasing power_one_right one_le_numeral)
  have kX: "k < X" "2 * k \<le> X" using k X2 by (simp_all add: X_def)
  have n: "2 ^ (52 + s) + k = 2 ^ 52 * X + k" by (simp add: power_add X_def)
  have "round_mag (2 ^ (52 + s) + k) = 2 ^ 52 * X"
    using kX by (subst round_mag_split [OF s X_def n kX(1)]) simp_all
  then show ?thesis by (simp add: power_add X_def)
qed

lemma absorbed_below:
  assumes s: "0 < s" and k0: "0 < k" and k: "2 * k \<le> 2 ^ s"
  shows "round_mag (2 ^ (53 + s) - k) = 2 ^ (53 + s)"
proof -
  define X :: nat where "X = 2 ^ s"
  have kX: "k \<le> X" "2 * k \<le> X" using k by (simp_all add: X_def)
  have n: "2 ^ (53 + s) - k = (2 ^ 53 - 1) * X + (X - k)"
    using kX by (simp add: power_add X_def algebra_simps)
  have r: "X - k < X" using k0 kX by simp
  have up: "X < 2 * (X - k) \<or> (2 * (X - k) = X \<and> odd ((2::nat) ^ 53 - 1))"
    using kX by (simp; arith)
  have "round_mag (2 ^ (53 + s) - k) = (2 ^ 53 - 1 + 1) * X"
    using up by (subst round_mag_split [OF s X_def n r]) simp_all
  then show ?thesis by (simp add: power_add X_def)
qed

lemma kept_below:
  assumes s: "0 < s" and k: "2 ^ s < 2 * k" and kn: "k \<le> 2 ^ (53 + s)"
  shows "round_mag (2 ^ (53 + s) - k) < 2 ^ (53 + s)"
proof -
  define X :: nat where "X = 2 ^ s"
  have X0: "0 < X" by (simp add: X_def)
  have top: "(2::nat) ^ (53 + s) = 2 ^ 53 * X" by (simp add: power_add X_def)
  have m: "round_mag ((2 ^ 53 - 1) * X) = (2 ^ 53 - 1) * X"
    using X0 by (subst round_mag_split [OF s X_def, of _ "2 ^ 53 - 1" 0]) simp_all
  have below: "(2 ^ 53 - 1) * X < 2 ^ (53 + s)"
    using X0 by (simp add: top)
  show ?thesis
  proof (cases "k \<le> X")
    case True
    have n: "2 ^ (53 + s) - k = (2 ^ 53 - 1) * X + (X - k)"
      using True by (simp add: power_add X_def algebra_simps)
    have r: "X - k < X" using k True X0 by (simp add: X_def)
    have down: "\<not> (X < 2 * (X - k) \<or> (2 * (X - k) = X \<and> odd ((2::nat) ^ 53 - 1)))"
      using k True by (simp add: X_def; arith)
    have "round_mag (2 ^ (53 + s) - k) = (2 ^ 53 - 1) * X"
      using down by (subst round_mag_split [OF s X_def n r]) simp_all
    with below show ?thesis by simp
  next
    case False
    then have "2 ^ (53 + s) - k \<le> (2 ^ 53 - 1) * X"
      by (simp add: power_add X_def algebra_simps)
    from round_mag_mono [OF this] m below show ?thesis by simp
  qed
qed

lemma one_plus_minus:
  fixes k :: nat
  defines "U \<equiv> (2::nat) ^ 1074"
  shows "k \<le> 2 ^ 1020 \<Longrightarrow> round_mag (U + k) = U"
    and "0 < k \<Longrightarrow> k \<le> 2 ^ 1020 \<Longrightarrow> round_mag (U - k) = U"
    and "2 ^ 1020 < k \<Longrightarrow> k \<le> U \<Longrightarrow> round_mag (U - k) < U"
  using absorbed_above [of 1022 k] absorbed_below [of 1021 k] kept_below [of 1021 k]
  by (simp_all add: U_def)

text \<open>Where the conversion of an int overflows.\<close>

lemma overflow_point:
  "round_mag ((2 ^ 54 - 1) * 2 ^ s) = 2 ^ (54 + s)"
proof -
  define Y :: nat where "Y = 2 ^ s"
  have Y0: "0 < Y" by (simp add: Y_def)
  have X: "2 * Y = 2 ^ Suc s" by (simp add: Y_def)
  have n: "(2 ^ 54 - 1) * Y = (2 ^ 53 - 1) * (2 * Y) + Y" by simp
  have "round_mag ((2 ^ 54 - 1) * Y) = (2 ^ 53 - 1 + 1) * (2 * Y)"
    using Y0 by (subst round_mag_split [OF _ X n]) simp_all
  then show ?thesis by (simp add: Y_def power_add)
qed

lemma below_overflow_point:
  assumes "0 < d" and "d \<le> 2 ^ s"
  shows "round_mag ((2 ^ 54 - 1) * 2 ^ s - d) = (2 ^ 53 - 1) * 2 ^ Suc s"
proof -
  define Y :: nat where "Y = 2 ^ s"
  have dY: "d \<le> Y" "0 < Y" using assms by (simp_all add: Y_def)
  have X: "2 * Y = 2 ^ Suc s" by (simp add: Y_def)
  have n: "(2 ^ 54 - 1) * Y - d = (2 ^ 53 - 1) * (2 * Y) + (Y - d)" using dY by simp
  have r: "Y - d < 2 * Y" using dY by simp
  have down: "\<not> (2 * Y < 2 * (Y - d) \<or> (2 * (Y - d) = 2 * Y \<and> odd ((2::nat) ^ 53 - 1)))"
    using dY assms(1) by (simp; arith)
  have "round_mag ((2 ^ 54 - 1) * Y - d) = (2 ^ 53 - 1) * (2 * Y)"
    using down by (subst round_mag_split [OF _ X n r]) simp_all
  then show ?thesis by (simp add: Y_def)
qed

lemma round_mag_int_overflow:
  fixes k :: nat
  shows "2 ^ 2098 \<le> round_mag (k * 2 ^ 1074) \<longleftrightarrow> 2 ^ 1024 - 2 ^ 970 \<le> k"
proof -
  define U :: nat where "U = 2 ^ 1074"
  define B :: nat where "B = 2 ^ 1024 - 2 ^ 970"
  have U0: "0 < U" by (simp add: U_def)
  have B0: "0 < B" by (simp add: B_def)
  have T: "B * U = (2 ^ 54 - 1) * 2 ^ 2044" by (simp add: B_def U_def)
  have UY: "U \<le> 2 ^ 2044" by (simp add: U_def)
  have top: "round_mag (B * U) = 2 ^ 2098"
    using overflow_point [of 2044] by (simp add: T)
  have under: "round_mag (B * U - U) = (2 ^ 53 - 1) * 2 ^ 2045"
    using below_overflow_point [OF U0 UY] by (simp add: T)
  have small: "(2 ^ 53 - 1) * 2 ^ 2045 < (2::nat) ^ 2098" by simp
  show ?thesis
  proof (cases "B \<le> k")
    case True
    then have "B * U \<le> k * U" by (rule mult_le_mono1)
    from round_mag_mono [OF this] top True show ?thesis by (simp add: U_def B_def)
  next
    case False
    then have "Suc k \<le> B" by simp
    then have "Suc k * U \<le> B * U" by (rule mult_le_mono1)
    then have "k * U \<le> B * U - U" by simp
    from round_mag_mono [OF this] under small False show ?thesis
      by (simp add: U_def B_def)
  qed
qed

lemma py_float_int:
  "py_float n = (if float_overflows n then Inl OverflowError else Inr (nearest_float n))"
proof (cases n)
  case (NumF x)
  then show ?thesis by (simp add: float_overflows_def nearest_float_def)
next
  case (NumI m)
  define z :: int where "z = m * 2 ^ 1074"
  define c where "c \<longleftrightarrow> 2 ^ 1024 - 2 ^ 970 \<le> \<bar>m\<bar>"
  have "nat \<bar>z\<bar> = nat \<bar>m\<bar> * 2 ^ 1074"
    by (simp add: z_def abs_mult nat_mult_distrib)
  moreover have "(2 ^ 1024 - 2 ^ 970 \<le> nat \<bar>m\<bar>) = c"
    by (simp add: c_def le_nat_iff)
  ultimately have ov: "(2 ^ 2098 \<le> round_mag (nat \<bar>z\<bar>)) = c"
    using round_mag_int_overflow [of "nat \<bar>m\<bar>"] by simp
  have ri: "round_int z = (if c then Infty (z < 0) else Fin (z < 0) (round_mag (nat \<bar>z\<bar>)))"
    unfolding round_int_def round_units_def Let_def ov ..
  have "py_float n = (case round_int z of Fin s k \<Rightarrow> Inr (Fin s k) | _ \<Rightarrow> Inl OverflowError)"
    by (simp add: NumI z_def)
  moreover have "float_overflows n = c"
    by (simp add: NumI float_overflows_def c_def)
  moreover have "nearest_float n = round_int z"
    by (simp add: NumI nearest_float_def z_def)
  ultimately show ?thesis by (simp add: ri)
qed

subsection \<open>Sums and differences of the example floats\<close>

lemma round_mag_one: "round_mag (2 ^ 1074) = 2 ^ 1074"
  using absorbed_above [of 1022 0] by simp

lemma fadd_one_zero: "fadd f_one (Fin s 0) = f_one"
  using round_mag_one by (simp add: f_one_def units_def round_int_def round_units_def)

lemma round_mag_12:
  "round_mag (2 ^ 1074 + 3602879701896397 * 2 ^ 1020) = 5404319552844595 * 2 ^ 1022"
  using round_mag_split [of 1022 "2 ^ 1022" "2 ^ 1074 + 3602879701896397 * 2 ^ 1020"
      5404319552844595 "2 ^ 1020"]
  by simp

lemma round_mag_08:
  "round_mag (2 ^ 1074 - 3602879701896397 * 2 ^ 1020) = 7205759403792794 * 2 ^ 1021"
  using round_mag_split [of 1021 "2 ^ 1021" "2 ^ 1074 - 3602879701896397 * 2 ^ 1020"
      7205759403792793 "2 ^ 1020"]
  by simp

lemma round_mag_6: "round_mag (6 * 2 ^ 1074) = 6 * 2 ^ 1074"
  using round_mag_split [of 1024 "2 ^ 1024" "6 * 2 ^ 1074" "6 * 2 ^ 50" 0] by simp

lemma round_mag_4: "round_mag (4 * 2 ^ 1074) = 4 * 2 ^ 1074"
  using round_mag_split [of 1024 "2 ^ 1024" "4 * 2 ^ 1074" "4 * 2 ^ 50" 0] by simp

lemma round_mag_2: "round_mag (2 ^ 1075) = 2 ^ 1075"
  using absorbed_above [of 1023 0] by simp

lemma nearest_float_2: "nearest_float (NumI 2) = f_2"
  using round_mag_2
  by (simp add: nearest_float_def f_2_def round_int_def round_units_def)

lemma nearest_float_0: "nearest_float (NumI 0) = f_zero"
  by (simp add: nearest_float_def f_zero_def round_int_def round_units_def round_mag_zero)

lemma tiny_sum: "fadd f_one f_tiny = f_one"
  using one_plus_minus(1) [of "2 ^ 1014"]
  by (simp add: f_one_def f_tiny_def units_def round_int_def round_units_def)

lemma tiny_diff: "fsub f_one f_tiny = f_one"
  using one_plus_minus(2) [of "2 ^ 1014"]
  by (simp add: fsub_def f_one_def f_tiny_def units_def round_int_def round_units_def)

lemma fadd_one_02: "fadd f_one f_02 = f_12"
  using round_mag_12
  by (simp add: f_one_def f_02_def f_12_def units_def round_int_def round_units_def)

lemma fsub_one_02: "fsub f_one f_02 = f_08"
  using round_mag_08
  by (simp add: fsub_def f_one_def f_02_def f_08_def units_def round_int_def round_units_def)

subsection \<open>\<^verbatim>\<open>_check_input\<close>\<close>

lemma feq_zero: "feq v f_zero \<longleftrightarrow> (\<exists>s. v = Fin s 0)"
  by (cases v) (auto simp: feq_def num_eq_def f_zero_def units_def)

lemma py_max_eq_one:
  "feq hi f_one \<Longrightarrow> feq (py_max lo f_zero) hi \<longleftrightarrow> feq lo hi"
  by (cases lo; cases hi)
     (auto simp: py_max_def feq_def flt_def num_eq_def f_zero_def f_one_def units_def
           split: if_splits)

lemma xeq_trans: "xeq a b \<Longrightarrow> xeq b c \<Longrightarrow> xeq a c"
  by (cases a; cases b; cases c) auto

lemma collapse_iff:
  assumes "fle f_zero v"
  shows "feq (fsub f_one v) (fadd f_one v) \<and> feq (fadd f_one v) f_one \<longleftrightarrow> fle v f_absorbed"
proof (cases v)
  case NaN
  with assms show ?thesis by (simp add: fle_def num_le_def f_zero_def)
next
  case (Infty s)
  with assms have "\<not> s" by (simp add: fle_def num_le_def f_zero_def)
  with Infty show ?thesis
    by (simp add: fle_def feq_def num_le_def num_eq_def f_one_def f_absorbed_def fsub_def)
next
  case (Fin s k)
  define U :: nat where "U = 2 ^ 1074"
  have one: "f_one = Fin False U" by (simp add: f_one_def U_def)
  have U: "0 < U" "U < 2 ^ 2098" by (simp_all add: U_def)
  note rm = one_plus_minus [of k, folded U_def]
  from assms Fin have sk: "s \<longrightarrow> k = 0"
    by (auto simp: fle_def num_le_def f_zero_def units_def split: if_splits)
  have lev: "fle v f_absorbed \<longleftrightarrow> k \<le> 2 ^ 1020"
    using Fin sk by (auto simp: fle_def num_le_def f_absorbed_def units_def)
  show ?thesis
  proof (cases "k = 0")
    case True
    have "round_mag U = U" using rm(1) True by simp
    with True Fin U show ?thesis
      unfolding lev
      by (simp add: one fsub_def feq_def num_eq_def units_def round_int_def round_units_def)
  next
    case False
    with sk have s: "\<not> s" by simp
    show ?thesis
    proof (cases "k \<le> 2 ^ 1020")
      case True
      then have kU: "k < U" by (simp add: U_def)
      from True False have "round_mag (U + k) = U" "round_mag (U - k) = U"
        using rm by simp_all
      moreover have "nat \<bar>int U - int k\<bar> = U - k" "nat \<bar>int U + int k\<bar> = U + k"
        using kU by simp_all
      ultimately show ?thesis
        using True Fin s U kU unfolding lev
        by (simp add: one fsub_def feq_def num_eq_def units_def round_int_def round_units_def)
    next
      case big: False
      have "\<not> feq (fsub f_one v) f_one"
      proof (cases "k \<le> U")
        case True
        with big have lt: "round_mag (U - k) < U" using rm(3) by simp
        have "nat \<bar>int U - int k\<bar> = U - k" using True by simp
        with lt U True Fin s show ?thesis
          by (auto simp add: one fsub_def feq_def num_eq_def units_def round_int_def
              round_units_def Let_def)
      next
        case False
        then have "int U - int k < 0" by simp
        with Fin s U show ?thesis
          by (auto simp add: one fsub_def feq_def num_eq_def units_def round_int_def
              round_units_def Let_def)
      qed
      moreover have "feq (fsub f_one v) f_one"
        if "feq (fsub f_one v) (fadd f_one v) \<and> feq (fadd f_one v) f_one"
        using that xeq_trans unfolding feq_def num_eq_def by blast
      ultimately show ?thesis using big unfolding lev by blast
    qed
  qed
qed

text \<open>
  C1, as the code has it. For a float \<open>v \<ge> 0\<close>, \<^verbatim>\<open>_check_input(v)\<close> with the defaults
  returns the pair \<open>(max(1 - v, 0), 1 + v)\<close>, except when \<open>v \<le> 2 ^ -54\<close>, where it
  returns \<open>None\<close>. These are the \<open>v\<close> for which the computed interval collapses,
  \<open>1 - v == 1 + v == 1\<close> in float arithmetic: \<open>v == 0\<close>, and every positive \<open>v\<close> up to
  \<open>2 ^ -54\<close>, which rounding absorbs on both sides of \<open>1.0\<close>.
\<close>

theorem check_input_single:
  assumes "fle f_zero v"
  shows "check_input (PyFloat v) f_one default_bound True =
           (if fle v f_absorbed then Inr None
            else Inr (Some (py_max (fsub f_one v) f_zero, fadd f_one v))) \<and>
         (feq v f_zero \<longrightarrow> check_input (PyFloat v) f_one default_bound True = Inr None) \<and>
         (fle v f_absorbed \<longleftrightarrow>
            feq (fsub f_one v) (fadd f_one v) \<and> feq (fadd f_one v) f_one)"
proof -
  have nonneg: "\<not> flt v f_zero"
    using assms by (cases v) (auto simp: fle_def flt_def num_le_def f_zero_def units_def)
  have "check_input (PyFloat v) f_one default_bound True =
           (if feq (fsub f_one v) (fadd f_one v) \<and> feq (fadd f_one v) f_one then Inr None
            else Inr (Some (py_max (fsub f_one v) f_zero, fadd f_one v)))"
    using nonneg py_max_eq_one [of "fadd f_one v" "fsub f_one v"]
    by (auto simp: check_input_def check_result_def Let_def feq_def)
  then have shape: "check_input (PyFloat v) f_one default_bound True =
           (if fle v f_absorbed then Inr None
            else Inr (Some (py_max (fsub f_one v) f_zero, fadd f_one v)))"
    by (simp only: collapse_iff [OF assms])
  have "fle v f_absorbed" if "feq v f_zero"
    using that by (auto simp: feq_zero fle_def num_le_def f_absorbed_def units_def)
  with shape have zero: "feq v f_zero \<longrightarrow>
      check_input (PyFloat v) f_one default_bound True = Inr None"
    by simp
  from shape zero collapse_iff [OF assms] show ?thesis by blast
qed

lemma check_input_02:
  "check_input (PyFloat f_02) f_one default_bound True = Inr (Some (f_08, f_12))"
proof -
  have "\<not> flt f_02 f_zero" "\<not> flt f_08 f_zero" "\<not> feq f_08 f_12"
    by (simp_all add: flt_def feq_def num_eq_def f_02_def f_08_def f_12_def f_zero_def units_def)
  then show ?thesis
    using fadd_one_02 fsub_one_02
    by (simp add: check_input_def check_result_def py_max_def feq_def)
qed

theorem check_input_single_witness:
  "fle f_zero f_02 \<and> \<not> fle f_02 f_absorbed \<and>
   check_input (PyFloat f_02) f_one default_bound True = Inr (Some (f_08, f_12)) \<and>
   fle f_zero f_zero \<and> feq f_zero f_zero \<and>
   check_input (PyFloat f_zero) f_one default_bound True = Inr None"
proof -
  have a: "fle f_zero f_02" and b: "fle f_zero f_zero" and c: "feq f_zero f_zero"
    by (simp_all add: fle_def feq_def num_le_def num_eq_def f_zero_def f_02_def units_def)
  have d: "\<not> fle f_02 f_absorbed" "\<not> flt f_08 f_zero"
    by (simp_all add: flt_def fle_def num_le_def f_02_def f_08_def f_absorbed_def f_zero_def
        units_def)
  from a b c d check_input_single [OF a, THEN conjunct1]
    check_input_single [OF b, THEN conjunct2, THEN conjunct1]
  show ?thesis
    by (simp add: fadd_one_02 fsub_one_02 py_max_def)
qed

text \<open>
  The claim as the spec states it fails at \<open>v = 2 ^ -60\<close>: this \<open>v\<close> is positive, both
  \<open>1 - v\<close> and \<open>1 + v\<close> round to \<open>1.0\<close>, and the result is \<open>None\<close>, not a pair.
\<close>

theorem check_input_single_counterexample:
  "fle f_zero f_tiny \<and> \<not> feq f_tiny f_zero \<and>
   check_input (PyFloat f_tiny) f_one default_bound True = Inr None"
proof -
  have "fle f_zero f_tiny" "\<not> feq f_tiny f_zero" "\<not> flt f_tiny f_zero"
    by (simp_all add: fle_def feq_def flt_def num_le_def num_eq_def f_zero_def f_tiny_def
        units_def)
  moreover have "feq f_one f_one" "\<not> flt f_one f_zero"
    by (simp_all add: feq_def flt_def num_eq_def f_one_def f_zero_def units_def)
  ultimately show ?thesis
    using tiny_sum tiny_diff
    by (simp add: check_input_def check_result_def py_max_def feq_def)
qed

lemma check_input_seq:
  "check_input (PySeq [PyFloat lo, PyFloat hi]) center bound clip =
     (if \<not> fle (fst bound) lo \<or> \<not> fle lo hi \<or> \<not> fle hi (snd bound) then Inl ValueError
      else if feq lo hi \<and> feq hi center then Inr None else Inr (Some (lo, hi)))"
  by (simp add: check_input_def check_result_def fle_def feq_def)

lemma check_input_numbers:
  assumes "num_of a = Some n0" and "num_of b = Some n1"
    and "num_le (NumF (fst bound)) n0" and "num_le n0 n1" and "num_le n1 (NumF (snd bound))"
  shows "check_input (PySeq [a, b]) center bound clip =
           (if num_eq n0 n1 \<and> num_eq n1 (NumF center) then Inr None
            else if float_overflows n0 \<or> float_overflows n1 then Inl OverflowError
            else Inr (Some (nearest_float n0, nearest_float n1)))"
  using assms by (simp add: check_input_def check_result_def py_float_int)

text \<open>
  C2, as the code has it. For a sequence \<open>(lo, hi)\<close> of two numbers with
  \<open>bound[0] \<le> lo \<le> hi \<le> bound[1]\<close>, \<^verbatim>\<open>_check_input\<close> returns \<open>None\<close> when
  \<open>lo == hi == center\<close>, and otherwise the pair \<open>(float(lo), float(hi))\<close>: the items as
  they are when they are floats, the nearest floats when they are ints. An int item of
  magnitude \<open>2 ^ 1024 - 2 ^ 970\<close> or more has no float, and \<^verbatim>\<open>OverflowError\<close> is raised.
\<close>

theorem check_input_pair:
  assumes "num_of a = Some n0" and "num_of b = Some n1"
    and "num_le (NumF (fst bound)) n0" and "num_le n0 n1" and "num_le n1 (NumF (snd bound))"
  shows "check_input (PySeq [a, b]) center bound clip =
           (if num_eq n0 n1 \<and> num_eq n1 (NumF center) then Inr None
            else if float_overflows n0 \<or> float_overflows n1 then Inl OverflowError
            else Inr (Some (nearest_float n0, nearest_float n1))) \<and>
         (\<forall>lo hi. a = PyFloat lo \<and> b = PyFloat hi \<longrightarrow>
            check_input (PySeq [a, b]) center bound clip =
              (if feq lo hi \<and> feq hi center then Inr None else Inr (Some (lo, hi))))"
proof -
  note gen = check_input_numbers [OF assms]
  have "check_input (PySeq [a, b]) center bound clip =
          (if feq lo hi \<and> feq hi center then Inr None else Inr (Some (lo, hi)))"
    if "a = PyFloat lo \<and> b = PyFloat hi" for lo hi
    using that assms(1,2) gen
    by (auto simp: feq_def float_overflows_def nearest_float_def)
  with gen show ?thesis by blast
qed

theorem check_input_pair_witness:
  "num_le (NumF (fst default_bound)) (NumF f_04) \<and> num_le (NumF f_04) (NumF f_06) \<and>
   num_le (NumF f_06) (NumF (snd default_bound)) \<and>
   check_input (PySeq [PyFloat f_04, PyFloat f_06]) f_one default_bound True
     = Inr (Some (f_04, f_06)) \<and>
   num_le (NumF (fst default_bound)) (NumF f_one) \<and> num_le (NumF f_one) (NumF f_one) \<and>
   num_le (NumF f_one) (NumF (snd default_bound)) \<and>
   check_input (PySeq [PyFloat f_one, PyFloat f_one]) f_one default_bound True = Inr None \<and>
   num_le (NumF (fst default_bound)) (NumI 0) \<and> num_le (NumI 0) (NumI 2) \<and>
   num_le (NumI 2) (NumF (snd default_bound)) \<and>
   check_input (PySeq [PyInt 0, PyInt 2]) f_one default_bound True = Inr (Some (f_zero, f_2))"
proof -
  have a: "num_le (NumF (fst default_bound)) (NumF f_04)" "num_le (NumF f_04) (NumF f_06)"
    "num_le (NumF f_06) (NumF (snd default_bound))"
    by (simp_all add: default_bound_def f_zero_def f_inf_def f_04_def f_06_def num_le_def
        units_def)
  have b: "num_le (NumF (fst default_bound)) (NumF f_one)" "num_le (NumF f_one) (NumF f_one)"
    "num_le (NumF f_one) (NumF (snd default_bound))"
    by (simp_all add: default_bound_def f_zero_def f_inf_def f_one_def num_le_def units_def)
  have c: "num_le (NumF (fst default_bound)) (NumI 0)" "num_le (NumI 0) (NumI 2)"
    "num_le (NumI 2) (NumF (snd default_bound))"
    by (simp_all add: default_bound_def f_zero_def f_inf_def num_le_def units_def)
  have d: "\<not> num_eq (NumF f_04) (NumF f_06)" "num_eq (NumF f_one) (NumF f_one)"
    "\<not> num_eq (NumI 0) (NumI 2)" "\<not> float_overflows (NumI 0)" "\<not> float_overflows (NumI 2)"
    by (simp_all add: f_04_def f_06_def f_one_def num_eq_def units_def float_overflows_def)
  have e: "nearest_float (NumF f_04) = f_04" "nearest_float (NumF f_06) = f_06"
    "\<not> float_overflows (NumF f_04)" "\<not> float_overflows (NumF f_06)"
    by (simp_all add: nearest_float_def float_overflows_def)
  have n: "num_of (PyFloat f_04) = Some (NumF f_04)" "num_of (PyFloat f_06) = Some (NumF f_06)"
    "num_of (PyFloat f_one) = Some (NumF f_one)"
    "num_of (PyInt 0) = Some (NumI 0)" "num_of (PyInt 2) = Some (NumI 2)"
    by simp_all
  from a b c d e
    check_input_pair [OF n(1) n(2) a, of f_one True, THEN conjunct1]
    check_input_pair [OF n(3) n(3) b, of f_one True, THEN conjunct1]
    check_input_pair [OF n(4) n(5) c, of f_one True, THEN conjunct1]
  show ?thesis
    by (simp add: nearest_float_0 nearest_float_2)
qed

text \<open>
  The claim as the spec states it fails at \<open>(0, 2 ^ 1024)\<close>: the pair is inside the
  default bound and in order, and is not \<open>(center, center)\<close>, but \<^verbatim>\<open>float(2 ** 1024)\<close>
  raises \<^verbatim>\<open>OverflowError\<close> and no pair is returned.
\<close>

theorem check_input_pair_counterexample:
  "num_le (NumF (fst default_bound)) (NumI 0) \<and> num_le (NumI 0) (NumI (2 ^ 1024)) \<and>
   num_le (NumI (2 ^ 1024)) (NumF (snd default_bound)) \<and>
   \<not> num_eq (NumI 0) (NumI (2 ^ 1024)) \<and>
   check_input (PySeq [PyInt 0, PyInt (2 ^ 1024)]) f_one default_bound True = Inl OverflowError"
proof -
  have c: "num_le (NumF (fst default_bound)) (NumI 0)" "num_le (NumI 0) (NumI (2 ^ 1024))"
    "num_le (NumI (2 ^ 1024)) (NumF (snd default_bound))"
    by (simp_all add: default_bound_def f_zero_def f_inf_def num_le_def units_def)
  have d: "\<not> num_eq (NumI 0) (NumI (2 ^ 1024))" "float_overflows (NumI (2 ^ 1024))"
    by (simp_all add: num_eq_def float_overflows_def)
  have n: "num_of (PyInt 0) = Some (NumI 0)" "num_of (PyInt (2 ^ 1024)) = Some (NumI (2 ^ 1024))"
    by simp_all
  from c d check_input_numbers [OF n c, of f_one True] show ?thesis by simp
qed

text \<open>
  C3. \<^verbatim>\<open>_check_input\<close> raises on every malformed argument: \<^verbatim>\<open>ValueError\<close> on a negative
  float and on a pair of numbers that is out of order, \<^verbatim>\<open>TypeError\<close> on a sequence
  whose length is not 2, on every string, and on anything else that is not \<open>None\<close>, a
  float or a sequence of two items (an int, for one). Both exceptions are the spec's
  \<open>InvalidArgument\<close>. \<open>None\<close> gives \<open>None\<close>.
\<close>

theorem check_input_malformed:
  "(flt v f_zero \<longrightarrow> check_input (PyFloat v) center bound clip = Inl ValueError) \<and>
   (num_of a = Some n0 \<and> num_of b = Some n1 \<and> \<not> num_le n0 n1 \<longrightarrow>
      check_input (PySeq [a, b]) center bound clip = Inl ValueError) \<and>
   (length xs \<noteq> 2 \<longrightarrow> check_input (PySeq xs) center bound clip = Inl TypeError) \<and>
   check_input (PyStr s) center bound clip = Inl TypeError \<and>
   (val \<noteq> PyNone \<and> (\<forall>x. val \<noteq> PyFloat x) \<and> (\<forall>x y. items val \<noteq> Some [x, y]) \<longrightarrow>
      check_input val center bound clip = Inl TypeError) \<and>
   check_input PyNone center bound clip = Inr None"
proof -
  have neg: "check_input (PyFloat v) center bound clip = Inl ValueError" if "flt v f_zero"
    using that by (simp add: check_input_def)
  have mis: "check_input (PySeq [a, b]) center bound clip = Inl ValueError"
    if "num_of a = Some n0 \<and> num_of b = Some n1 \<and> \<not> num_le n0 n1"
    using that by (simp add: check_input_def)
  have len: "check_input (PySeq xs) center bound clip = Inl TypeError" if "length xs \<noteq> 2"
    using that by (auto simp: check_input_def split: list.splits)
  have str: "check_input (PyStr s) center bound clip = Inl TypeError"
    by (auto simp: check_input_def split: list.splits)
  have other: "check_input val center bound clip = Inl TypeError"
    if "val \<noteq> PyNone \<and> (\<forall>x. val \<noteq> PyFloat x) \<and> (\<forall>x y. items val \<noteq> Some [x, y])"
    using that by (cases val) (auto simp: check_input_def split: list.splits)
  have none: "check_input PyNone center bound clip = Inr None"
    by (simp add: check_input_def)
  from neg mis len str other none show ?thesis by blast
qed

theorem check_input_malformed_witness:
  "flt f_neg_01 f_zero \<and>
   check_input (PyFloat f_neg_01) f_one default_bound True = Inl ValueError \<and>
   \<not> num_le (NumF f_06) (NumF f_04) \<and>
   check_input (PySeq [PyFloat f_06, PyFloat f_04]) f_one default_bound True = Inl ValueError \<and>
   check_input (PySeq [PyFloat f_04, PyFloat f_06, PyFloat f_one]) f_one default_bound True
     = Inl TypeError \<and>
   check_input (PyStr ''ab'') f_one default_bound True = Inl TypeError \<and>
   check_input (PyInt 1) f_one default_bound True = Inl TypeError \<and>
   check_input PyNone f_one default_bound True = Inr None"
proof -
  have a: "flt f_neg_01 f_zero"
    by (simp add: flt_def f_neg_01_def f_zero_def units_def)
  have b: "\<not> num_le (NumF f_06) (NumF f_04)"
    by (simp add: num_le_def f_06_def f_04_def units_def)
  from a b
    check_input_malformed [of f_neg_01 f_one default_bound True "PyFloat f_06" "NumF f_06"
      "PyFloat f_04" "NumF f_04" "[PyFloat f_04, PyFloat f_06, PyFloat f_one]" "''ab''" "PyInt 1"]
  show ?thesis by simp
qed

subsection \<open>Rounding keeps the order\<close>


lemma round_units_xval_mono:
  assumes "a \<le> b"
  shows "xle (xval_of (NumF (round_units False a))) (xval_of (NumF (round_units False b)))"
    and "xle (xval_of (NumF (round_units True b))) (xval_of (NumF (round_units True a)))"
  using round_mag_mono [OF assms]
  by (auto simp: round_units_def Let_def units_def)

lemma round_units_sign:
  "xle (xval_of (NumF (round_units True a))) (XFin 0)"
  "xle (XFin 0) (xval_of (NumF (round_units False a)))"
  by (auto simp: round_units_def Let_def units_def)

lemma xle_trans: "xle a b \<Longrightarrow> xle b c \<Longrightarrow> xle a c"
  by (cases a; cases b; cases c) auto

lemma round_int_mono:
  assumes "z1 \<le> z2"
  shows "xle (xval_of (NumF (round_int z1))) (xval_of (NumF (round_int z2)))"
proof -
  consider (pos) "0 \<le> z1" | (neg) "z2 < 0" | (mixed) "z1 < 0" "0 \<le> z2"
    by linarith
  then show ?thesis
  proof cases
    case pos
    with assms have "nat \<bar>z1\<bar> \<le> nat \<bar>z2\<bar>" "\<not> z1 < 0" "\<not> z2 < 0" by simp_all
    then show ?thesis by (simp add: round_int_def round_units_xval_mono)
  next
    case neg
    with assms have "nat \<bar>z2\<bar> \<le> nat \<bar>z1\<bar>" "z1 < 0" "z2 < 0" by simp_all
    then show ?thesis by (simp add: round_int_def round_units_xval_mono)
  next
    case mixed
    then have "round_int z1 = round_units True (nat \<bar>z1\<bar>)"
      "round_int z2 = round_units False (nat \<bar>z2\<bar>)"
      by (simp_all add: round_int_def)
    then show ?thesis
      using xle_trans [OF round_units_sign(1) round_units_sign(2)] by simp
  qed
qed

lemma fadd_xval:
  "xval_of (NumF (fadd (Fin s a) (Fin t b))) = xval_of (NumF (round_int (units s a + units t b)))"
  by (simp add: Let_def round_int_def round_units_def round_mag_zero units_def)

lemma round_int_representable:
  "representable k \<Longrightarrow> xval_of (NumF (round_int (units s k))) = XFin (units s k)"
  by (auto simp: representable_def round_int_def round_units_def units_def Let_def)

lemma round_int_not_nan: "xval_of (NumF (round_int z)) \<noteq> XNaN"
  by (simp add: round_int_def round_units_def Let_def)

lemma xle_total: "a \<noteq> XNaN \<Longrightarrow> b \<noteq> XNaN \<Longrightarrow> \<not> xlt a b \<Longrightarrow> xle b a"
  by (cases a; cases b) auto

lemma py_float_xval:
  assumes "py_float n = Inr x" and "num_ok n" and "xval_of n = XFin z"
  shows "xval_of (NumF x) = xval_of (NumF (round_int z))"
proof (cases n)
  case (NumF y)
  with assms show ?thesis
    by (cases y) (auto simp: round_int_representable)
next
  case (NumI m)
  with assms show ?thesis
    by (auto split: pyfloat.splits)
qed

lemma py_float_not_nan:
  assumes "py_float n = Inr x" and "xval_of n \<noteq> XNaN"
  shows "xval_of (NumF x) \<noteq> XNaN"
  using assms by (cases n) (auto simp: round_int_not_nan split: pyfloat.splits)

lemma py_float_inf:
  assumes "py_float n = Inr x" and "xval_of n = XInf s"
  shows "x = Infty s"
  using assms by (cases n) (auto split: pyfloat.splits elim: xval_of.elims)

lemma py_float_le:
  assumes le: "num_le n0 n1" and lo: "py_float n0 = Inr lo" and hi: "py_float n1 = Inr hi"
    and ok: "num_ok n0" "num_ok n1"
  shows "fle lo hi"
proof -
  from le have nn: "xval_of n0 \<noteq> XNaN" "xval_of n1 \<noteq> XNaN"
    by (cases "xval_of n0"; cases "xval_of n1"; simp add: num_le_def)+
  have lo_nn: "xval_of (NumF lo) \<noteq> XNaN" and hi_nn: "xval_of (NumF hi) \<noteq> XNaN"
    using py_float_not_nan [OF lo nn(1)] py_float_not_nan [OF hi nn(2)] by simp_all
  show ?thesis
  proof (cases "xval_of n0")
    case XNaN
    with nn show ?thesis by simp
  next
    case (XInf s)
    with le have "s \<or> xval_of n1 = XInf False"
      by (cases "xval_of n1") (auto simp: num_le_def)
    then show ?thesis
    proof
      assume s
      with py_float_inf [OF lo XInf] hi_nn show ?thesis
        by (cases "xval_of (NumF hi)") (auto simp: fle_def num_le_def)
    next
      assume "xval_of n1 = XInf False"
      from py_float_inf [OF hi this] lo_nn show ?thesis
        by (cases "xval_of (NumF lo)") (auto simp: fle_def num_le_def)
    qed
  next
    case (XFin z0)
    note n0 = this
    show ?thesis
    proof (cases "xval_of n1")
      case XNaN
      with nn show ?thesis by simp
    next
      case (XInf t)
      with le n0 have "\<not> t" by (simp add: num_le_def)
      with py_float_inf [OF hi XInf] lo_nn show ?thesis
        by (cases "xval_of (NumF lo)") (auto simp: fle_def num_le_def)
    next
      case (XFin z1)
      with le n0 have "z0 \<le> z1" by (simp add: num_le_def)
      from round_int_mono [OF this]
      show ?thesis
        by (simp add: fle_def num_le_def py_float_xval [OF lo ok(1) n0]
            py_float_xval [OF hi ok(2) XFin])
    qed
  qed
qed

lemma check_input_sequence_ordered:
  assumes res: "check_input val center bound clip = Inr (Some (lo, hi))"
    and wf: "well_formed val" and seq: "\<forall>v. val \<noteq> PyFloat v"
  shows "fle lo hi"
proof -
  from res seq obtain v0 v1 where it: "items val = Some [v0, v1]"
    by (cases val) (auto simp: check_input_def split: option.splits list.splits)
  from res seq it obtain n0 n1 where n: "num_of v0 = Some n0" "num_of v1 = Some n1"
    and le: "num_le n0 n1" and cr: "check_result n0 n1 center = Inr (Some (lo, hi))"
    by (cases val) (auto simp: check_input_def split: option.splits if_splits)
  from cr have pf: "py_float n0 = Inr lo" "py_float n1 = Inr hi"
    by (auto simp: check_result_def split: if_splits sum.splits)
  from wf it have "well_formed v0" "well_formed v1"
    by (cases val; auto)+
  with n have "num_ok n0" "num_ok n1"
    by (cases v0; cases v1; auto)+
  with le pf show ?thesis by (intro py_float_le)
qed

lemma units_neg: "units (\<not> s) a = - units s a"
  by (simp add: units_def)

lemma fadd_fsub_le:
  assumes "0 \<le> units s a"
  shows "fle (fsub (Fin t b) (Fin s a)) (fadd (Fin t b) (Fin s a))"
proof -
  have "units t b + units (\<not> s) a \<le> units t b + units s a"
    using assms by (simp add: units_neg)
  from round_int_mono [OF this] show ?thesis
    unfolding fle_def num_le_def fsub_def fneg.simps fadd_xval .
qed

lemma fadd_not_nan: "xval_of (NumF (fadd (Fin t b) (Fin s a))) \<noteq> XNaN"
  unfolding fadd_xval by (rule round_int_not_nan)

lemma check_input_float_ordered:
  assumes res: "check_input (PyFloat v) center bound clip = Inr (Some (lo, hi))"
    and nan: "\<not> is_nan v" "\<not> is_nan center" and inf: "\<not> (is_infty v \<and> is_infty center)"
  shows "(clip \<longrightarrow> fle f_zero lo) \<and>
         (\<not> clip \<or> fle f_zero (fadd center v) \<longrightarrow> fle lo hi)"
proof -
  let ?lo = "fsub center v" and ?hi = "fadd center v"
  from res have nonneg: "\<not> flt v f_zero"
    by (auto simp: check_input_def split: if_splits)
  from res nonneg have hi: "hi = ?hi" and lo: "lo = (if clip then py_max ?lo f_zero else ?lo)"
    by (auto simp: check_input_def check_result_def Let_def split: if_splits)
  have ord: "fle ?lo ?hi" and lo_nn: "xval_of (NumF ?lo) \<noteq> XNaN"
  proof -
    show "fle ?lo ?hi"
    proof (cases v)
      case NaN
      with nan show ?thesis by simp
    next
      case (Infty s)
      with nonneg have "\<not> s" by (auto simp: flt_def f_zero_def units_def)
      with Infty inf nan show ?thesis
        by (cases center) (auto simp: fsub_def fle_def num_le_def)
    next
      case (Fin s a)
      with nonneg have "0 \<le> units s a"
        by (auto simp: flt_def f_zero_def units_def)
      from fadd_fsub_le [OF this] Fin nan show ?thesis
        by (cases center) (auto simp: fsub_def fle_def num_le_def)
    qed
    then show "xval_of (NumF ?lo) \<noteq> XNaN"
      by (cases "xval_of (NumF ?lo)") (auto simp: fle_def num_le_def)
  qed
  have zero: "xval_of (NumF f_zero) = XFin 0" by (simp add: f_zero_def units_def)
  have clamp: "fle f_zero (py_max ?lo f_zero)"
    using xle_total [OF lo_nn, of "xval_of (NumF f_zero)"]
    by (auto simp: py_max_def fle_def flt_def num_le_def zero)
  have "fle (py_max ?lo f_zero) ?hi" if "fle f_zero ?hi"
    using that ord by (simp add: py_max_def)
  with ord clamp lo hi show ?thesis by auto
qed


text \<open>
  C4, as the code has it. A pair that \<^verbatim>\<open>_check_input\<close> returns for a sequence has
  \<open>low \<le> high\<close>. For a single float \<open>v\<close>, when neither \<open>v\<close> nor the center is NaN and
  they are not both infinite: with the clamp flag set the lower end is \<open>\<ge> 0\<close>; the
  pair has \<open>low \<le> high\<close> when the flag is off, and when it is on as long as
  \<open>center + v \<ge> 0\<close>.
\<close>

theorem check_input_ordered:
  assumes "check_input val center bound clip = Inr (Some (lo, hi))" and "well_formed val"
  shows "((\<forall>v. val \<noteq> PyFloat v) \<longrightarrow> fle lo hi) \<and>
         (\<forall>v. val = PyFloat v \<and> \<not> is_nan v \<and> \<not> is_nan center \<and>
              \<not> (is_infty v \<and> is_infty center) \<longrightarrow>
            (clip \<longrightarrow> fle f_zero lo) \<and>
            (\<not> clip \<or> fle f_zero (fadd center v) \<longrightarrow> fle lo hi))"
  using assms check_input_sequence_ordered [of val center bound clip lo hi]
    check_input_float_ordered [of _ center bound clip lo hi]
  by blast

theorem check_input_ordered_witness:
  "check_input (PyFloat f_one) f_zero default_bound True = Inr (Some (f_zero, f_one)) \<and>
   well_formed (PyFloat f_one) \<and> fle f_zero (fadd f_zero f_one) \<and>
   fle f_zero f_zero \<and> fle f_zero f_one \<and>
   check_input (PySeq [PyFloat f_zero, PyFloat f_one]) f_one default_bound True
     = Inr (Some (f_zero, f_one)) \<and>
   well_formed (PySeq [PyFloat f_zero, PyFloat f_one])"
proof -
  have sum: "fadd f_zero f_one = f_one" and diff: "fsub f_zero f_one = Fin True (2 ^ 1074)"
    using round_mag_one
    by (simp_all add: fsub_def f_zero_def f_one_def units_def round_int_def round_units_def)
  have cmp: "\<not> flt f_one f_zero" "flt (Fin True (2 ^ 1074)) f_zero" "\<not> feq f_zero f_one"
    "fle f_zero f_zero" "fle f_zero f_one" "fle f_one f_inf"
    by (simp_all add: flt_def feq_def fle_def num_le_def num_eq_def f_zero_def f_one_def
        f_inf_def units_def)
  have wf: "well_formed (PyFloat f_one)" "well_formed (PySeq [PyFloat f_zero, PyFloat f_one])"
    using round_mag_one round_mag_zero
    by (simp_all add: representable_def f_zero_def f_one_def)
  have single: "check_input (PyFloat f_one) f_zero default_bound True
      = Inr (Some (f_zero, f_one))"
    using cmp by (simp add: check_input_def check_result_def sum diff py_max_def feq_def)
  have pair: "check_input (PySeq [PyFloat f_zero, PyFloat f_one]) f_one default_bound True
      = Inr (Some (f_zero, f_one))"
    using cmp by (simp add: check_input_seq default_bound_def)
  from single pair wf sum cmp
    check_input_ordered [OF single wf(1)] check_input_ordered [OF pair wf(2)]
  show ?thesis by simp
qed

text \<open>
  The claim as the spec states it fails in two ways. With the center \<open>-5.0\<close> and the
  clamp flag set, \<open>v = 1.0\<close> gives the pair \<open>(0.0, -4.0)\<close>: the lower end is clamped
  above the upper one. With the defaults, \<open>v = NaN\<close> passes the sign test and comes back
  as \<open>(NaN, NaN)\<close>, which is neither ordered nor \<open>\<ge> 0\<close>.
\<close>

theorem check_input_ordered_counterexample:
  "check_input (PyFloat f_one) f_neg_5 default_bound True = Inr (Some (f_zero, f_neg_4)) \<and>
   \<not> fle f_zero f_neg_4 \<and>
   check_input (PyFloat NaN) f_one default_bound True = Inr (Some (NaN, NaN)) \<and>
   \<not> fle NaN NaN \<and> \<not> fle f_zero NaN"
proof -
  have sum: "fadd f_neg_5 f_one = f_neg_4"
    using round_mag_4
    by (simp add: f_neg_5_def f_neg_4_def f_one_def units_def round_int_def round_units_def)
  have diff: "fsub f_neg_5 f_one = Fin True (6 * 2 ^ 1074)"
    using round_mag_6
    by (simp add: fsub_def f_neg_5_def f_one_def units_def round_int_def round_units_def)
  have cmp: "\<not> flt f_one f_zero" "flt (Fin True (6 * 2 ^ 1074)) f_zero" "\<not> feq f_zero f_neg_4"
    "\<not> fle f_zero f_neg_4"
    by (simp_all add: flt_def feq_def fle_def num_le_def num_eq_def f_zero_def f_one_def
        f_neg_4_def units_def)
  have five: "check_input (PyFloat f_one) f_neg_5 default_bound True
      = Inr (Some (f_zero, f_neg_4))"
    using cmp by (simp add: check_input_def check_result_def sum diff py_max_def feq_def)
  have nan: "check_input (PyFloat NaN) f_one default_bound True = Inr (Some (NaN, NaN))"
    by (simp add: check_input_def check_result_def fsub_def py_max_def flt_def num_eq_def
        f_one_def)
  have "\<not> fle NaN NaN" "\<not> fle f_zero NaN"
    by (simp_all add: fle_def num_le_def f_zero_def)
  with five nan cmp show ?thesis by simp
qed

subsection \<open>ColorJitter dispatch\<close>

lemma jitter_step_factor:
  "jitter_step F P out i = (if factor P i \<noteq> None then apply_op F P out i else out)"
  by (auto simp add: jitter_step_def factor_def apply_op_def)

lemma jitter_loop_foldl:
  "jitter_loop F P out xs = foldl (apply_op F P) out (filter (\<lambda>i. factor P i \<noteq> None) xs)"
  by (induction xs arbitrary: out) (simp_all add: jitter_step_factor)

text \<open>
  C5. For a parameter dictionary whose \<open>fn_idx\<close> is a permutation of \<open>0..3\<close>,
  \<^verbatim>\<open>ColorJitter._transform\<close> runs, from the input, the operations of the enabled indices
  one after the other: these are the indices of the permutation whose factor is not
  \<open>None\<close>, in the order of the permutation, each once. When every factor is \<open>None\<close>
  the input comes back as it is.
\<close>

theorem transform_applies_enabled:
  assumes "distinct (fn_idx P)" and "set (fn_idx P) = {0, 1, 2, 3}"
  shows "ColorJitter_transform F inpt P = foldl (apply_op F P) inpt (enabled P) \<and>
         distinct (enabled P) \<and>
         set (enabled P) = {i \<in> {0, 1, 2, 3}. factor P i \<noteq> None} \<and>
         (brightness_factor P = None \<and> contrast_factor P = None \<and>
          saturation_factor P = None \<and> hue_factor P = None \<longrightarrow>
          ColorJitter_transform F inpt P = inpt)"
proof -
  have run: "ColorJitter_transform F inpt P = foldl (apply_op F P) inpt (enabled P)"
    by (simp add: ColorJitter_transform_def enabled_def jitter_loop_foldl)
  have once: "distinct (enabled P)"
    using assms(1) by (simp add: enabled_def)
  have exact: "set (enabled P) = {i \<in> {0, 1, 2, 3}. factor P i \<noteq> None}"
    using assms(2) by (auto simp: enabled_def)
  have "enabled P = []"
    if "brightness_factor P = None \<and> contrast_factor P = None \<and>
        saturation_factor P = None \<and> hue_factor P = None"
    using that by (simp add: enabled_def factor_def)
  with run have same: "brightness_factor P = None \<and> contrast_factor P = None \<and>
      saturation_factor P = None \<and> hue_factor P = None \<longrightarrow>
      ColorJitter_transform F inpt P = inpt"
    by simp
  from run once exact same show ?thesis by blast
qed

theorem transform_applies_enabled_witness:
  "distinct [2, 0, 3, 1 :: int] \<and> set [2, 0, 3, 1 :: int] = {0, 1, 2, 3} \<and>
   ColorJitter_transform recorder []
     \<lparr>fn_idx = [2, 0, 3, 1], brightness_factor = Some f_one, contrast_factor = None,
      saturation_factor = Some f_half, hue_factor = None\<rparr>
   = [AdjustSaturation f_half, AdjustBrightness f_one]"
  using transform_applies_enabled [of
      "\<lparr>fn_idx = [2, 0, 3, 1], brightness_factor = Some f_one, contrast_factor = None,
        saturation_factor = Some f_half, hue_factor = None\<rparr>" recorder "[]"]
  by (simp add: enabled_def factor_def apply_op_def recorder_def insert_commute)

lemma init_02:
  "ColorJitter_init (PyFloat f_02) PyNone PyNone PyNone = Inr brightness_only"
  by (simp add: ColorJitter_init_def check_input_02 brightness_only_def)
     (simp add: check_input_def)

lemma flt_08_12: "flt f_08 f_12"
  by (simp add: flt_def f_08_def f_12_def units_def)

lemma get_params_brightness_only:
  "ColorJitter_get_params R brightness_only g =
     Inr (\<lparr>fn_idx = fst (randperm R g 4),
           brightness_factor = Some (fst (uniform R (snd (randperm R g 4)) f_08 f_12)),
           contrast_factor = None, saturation_factor = None, hue_factor = None\<rparr>,
          snd (uniform R (snd (randperm R g 4)) f_08 f_12))"
  by (simp add: ColorJitter_get_params_def generate_value_def brightness_only_def flt_08_12
      split: prod.splits)

lemma filter_brightness:
  "brightness_factor P \<noteq> None \<Longrightarrow> contrast_factor P = None \<Longrightarrow>
   saturation_factor P = None \<Longrightarrow> hue_factor P = None \<Longrightarrow>
   filter (\<lambda>i. factor P i \<noteq> None) xs = filter (\<lambda>i. i = 0) xs"
  by (rule filter_cong) (auto simp: factor_def)

lemma filter_single:
  "distinct xs \<Longrightarrow> x \<in> set xs \<Longrightarrow> filter (\<lambda>i. i = x) xs = [x]"
proof (induction xs)
  case Nil
  then show ?case by simp
next
  case (Cons y ys)
  show ?case
  proof (cases "y = x")
    case True
    with Cons.prems have "x \<notin> set ys" by simp
    then have "filter (\<lambda>i. i = x) ys = []" by (auto simp: filter_empty_conv)
    with True show ?thesis by simp
  next
    case False
    with Cons show ?thesis by simp
  qed
qed

lemma foldl_apply_brightness:
  "foldl (apply_op F P) out (filter (\<lambda>i. i = 0) xs)
     = foldl (\<lambda>out i. adjust_brightness F out (the (brightness_factor P))) out (filter (\<lambda>i. i = 0) xs)"
  by (induction xs arbitrary: out) (simp_all add: apply_op_def)

text \<open>
  C6. \<^verbatim>\<open>ColorJitter(brightness=0.2)\<close> has the brightness range \<open>(0.8, 1.2)\<close> and no
  other range. Whatever the generator draws, sampling succeeds, the contrast, saturation
  and hue factors are sampled as \<open>None\<close>, and applying the transform runs
  \<^verbatim>\<open>adjust_brightness\<close> with the sampled factor once for each \<open>0\<close> in the drawn \<open>fn_idx\<close>
  and nothing else, so exactly once when \<open>fn_idx\<close> is a permutation of \<open>0..3\<close>. The
  other three operations can be replaced by anything without changing the result.
\<close>

theorem brightness_only_applies_brightness:
  "ColorJitter_init (PyFloat f_02) PyNone PyNone PyNone = Inr brightness_only \<and>
   ColorJitter_get_params R brightness_only g =
     Inr (\<lparr>fn_idx = fst (randperm R g 4),
           brightness_factor = Some (fst (uniform R (snd (randperm R g 4)) f_08 f_12)),
           contrast_factor = None, saturation_factor = None, hue_factor = None\<rparr>,
          snd (uniform R (snd (randperm R g 4)) f_08 f_12)) \<and>
   ColorJitter_forward R F brightness_only inpt g =
     Inr (foldl (\<lambda>out i. adjust_brightness F out
                   (fst (uniform R (snd (randperm R g 4)) f_08 f_12)))
            inpt (filter (\<lambda>i. i = 0) (fst (randperm R g 4))),
          snd (uniform R (snd (randperm R g 4)) f_08 f_12)) \<and>
   (distinct (fst (randperm R g 4)) \<and> set (fst (randperm R g 4)) = {0, 1, 2, 3} \<longrightarrow>
      ColorJitter_forward R F brightness_only inpt g =
        Inr (adjust_brightness F inpt (fst (uniform R (snd (randperm R g 4)) f_08 f_12)),
             snd (uniform R (snd (randperm R g 4)) f_08 f_12))) \<and>
   ColorJitter_forward R (F\<lparr>adjust_contrast := c, adjust_saturation := s, adjust_hue := h\<rparr>)
       brightness_only inpt g
     = ColorJitter_forward R F brightness_only inpt g"
proof -
  let ?b = "fst (uniform R (snd (randperm R g 4)) f_08 f_12)"
  let ?g = "snd (uniform R (snd (randperm R g 4)) f_08 f_12)"
  let ?P = "\<lparr>fn_idx = fst (randperm R g 4), brightness_factor = Some ?b,
             contrast_factor = None, saturation_factor = None, hue_factor = None\<rparr>"
  have fw: "ColorJitter_forward R F' brightness_only inpt g =
          Inr (ColorJitter_transform F' inpt ?P, ?g)" for F'
    by (simp add: ColorJitter_forward_def get_params_brightness_only)
  have tr: "ColorJitter_transform F' inpt ?P =
      foldl (\<lambda>out i. adjust_brightness F' out ?b) inpt
        (filter (\<lambda>i. i = 0) (fst (randperm R g 4)))" for F'
  proof -
    have "ColorJitter_transform F' inpt ?P =
        foldl (apply_op F' ?P) inpt (filter (\<lambda>i. factor ?P i \<noteq> None) (fn_idx ?P))"
      by (simp only: ColorJitter_transform_def jitter_loop_foldl)
    also have "filter (\<lambda>i. factor ?P i \<noteq> None) (fn_idx ?P) = filter (\<lambda>i. i = 0) (fn_idx ?P)"
      by (intro filter_brightness) simp_all
    finally show ?thesis
      by (simp add: foldl_apply_brightness)
  qed
  have once: "filter (\<lambda>i. i = 0) (fst (randperm R g 4)) = [0]"
    if "distinct (fst (randperm R g 4)) \<and> set (fst (randperm R g 4)) = {0, 1, 2, 3}"
    using that by (intro filter_single) auto
  from once show ?thesis
    by (auto simp add: init_02 get_params_brightness_only fw tr)
qed

theorem brightness_only_applies_brightness_witness:
  "ColorJitter_init (PyFloat f_02) PyNone PyNone PyNone = Inr brightness_only \<and>
   ColorJitter_get_params fixed_generator brightness_only () =
     Inr (\<lparr>fn_idx = [3, 0, 2, 1], brightness_factor = Some f_08, contrast_factor = None,
           saturation_factor = None, hue_factor = None\<rparr>, ()) \<and>
   ColorJitter_forward fixed_generator recorder brightness_only [] () =
     Inr ([AdjustBrightness f_08], ())"
  using brightness_only_applies_brightness [of fixed_generator "()" recorder "[]"]
  by (simp add: fixed_generator_def recorder_def)

subsection \<open>Channel shuffle\<close>

text \<open>
  C7. An input that is not a \<^verbatim>\<open>features.Image\<close>, not a PIL image and not a plain tensor
  comes back from \<^verbatim>\<open>_RandomChannelShuffle._transform\<close> unchanged and without an error,
  whatever the permutation.
\<close>

theorem shuffle_passthrough:
  assumes "\<not> isinstance_Image inpt" and "\<not> isinstance_PIL inpt" and "\<not> is_simple_tensor inpt"
  shows "RandomChannelShuffle_transform pil_to_tensor to_pil_image inpt permutation = Inr inpt"
  using assms by (simp add: RandomChannelShuffle_transform_def)

theorem shuffle_passthrough_witness:
  "\<not> isinstance_Image (OtherInput ''bounding box'' :: (nat, nat list, string) input) \<and>
   \<not> isinstance_PIL (OtherInput ''bounding box'' :: (nat, nat list, string) input) \<and>
   \<not> is_simple_tensor (OtherInput ''bounding box'' :: (nat, nat list, string) input) \<and>
   RandomChannelShuffle_transform (\<lambda>im. im) (\<lambda>t. t)
     (OtherInput ''bounding box'' :: (nat, nat list, string) input) [1, 2, 0]
   = Inr (OtherInput ''bounding box'')"
  using shuffle_passthrough [of "OtherInput ''bounding box'' :: (nat, nat list, string) input"
      "\<lambda>im. im" "\<lambda>t. t" "[1, 2, 0]"]
  by simp

text \<open>
  C8. On an image with three channels and the permutation \<open>[2, 0, 1]\<close> the output has
  the channels \<open>[old 2, old 0, old 1]\<close>, so every pixel of output channel \<open>c\<close> is the
  pixel at the same place of the old channel \<open>[2, 0, 1] ! c\<close>. This holds for a plain
  tensor, for a \<^verbatim>\<open>features.Image\<close>, whose color space becomes \<open>OTHER\<close>, and for a PIL
  image through the two conversions.
\<close>

theorem shuffle_201:
  fixes img :: "'px list list list"
  assumes "length img = 3"
  shows "RandomChannelShuffle_transform p2t t2p (SimpleTensor img) [2, 0, 1]
           = Inr (SimpleTensor [img ! 2, img ! 0, img ! 1]) \<and>
         RandomChannelShuffle_transform p2t t2p
             (FeaturesImage \<lparr>data = img, color_space = cs\<rparr>) [2, 0, 1]
           = Inr (FeaturesImage \<lparr>data = [img ! 2, img ! 0, img ! 1], color_space = OTHER\<rparr>) \<and>
         (p2t pim = img \<longrightarrow>
            RandomChannelShuffle_transform p2t t2p (PILImage pim) [2, 0, 1]
              = Inr (PILImage (t2p [img ! 2, img ! 0, img ! 1]))) \<and>
         (\<forall>c y x. c < 3 \<longrightarrow>
            pixel [img ! 2, img ! 0, img ! 1] c y x = pixel img (nat ([2, 0, 1] ! c)) y x)"
proof -
  have idx: "index_channels img [2, 0, 1] = Inr [img ! 2, img ! 0, img ! 1]"
    using assms by simp
  have px: "pixel [img ! 2, img ! 0, img ! 1] c y x = pixel img (nat ([2, 0, 1] ! c)) y x"
    if "c < 3" for c y x
  proof -
    from that have "c = 0 \<or> c = 1 \<or> c = 2" by arith
    then show ?thesis by (auto simp: pixel_def)
  qed
  from idx px show ?thesis
    by (simp add: RandomChannelShuffle_transform_def new_like_def)
qed

theorem shuffle_201_witness:
  "length [[[10, 11]], [[20, 21]], [[30, 31 :: nat]]] = 3 \<and>
   RandomChannelShuffle_transform (\<lambda>im. im) (\<lambda>t. t)
       (FeaturesImage \<lparr>data = [[[10, 11]], [[20, 21]], [[30, 31 :: nat]]],
                       color_space = NamedSpace ''RGB''\<rparr>
         :: (nat list list, nat list list list, unit) input) [2, 0, 1]
     = Inr (FeaturesImage \<lparr>data = [[[30, 31]], [[10, 11]], [[20, 21]]], color_space = OTHER\<rparr>) \<and>
   RandomChannelShuffle_transform (\<lambda>im. im) (\<lambda>t. t)
       (PILImage [[[10, 11]], [[20, 21]], [[30, 31 :: nat]]]
         :: (nat list list, nat list list list, unit) input) [2, 0, 1]
     = Inr (PILImage [[[30, 31]], [[10, 11]], [[20, 21]]])"
proof -
  let ?img = "[[[10, 11]], [[20, 21]], [[30, 31 :: nat]]]"
  let ?p2t = "\<lambda>im :: nat list list list. im"
  have len: "length ?img = 3" by simp
  have "RandomChannelShuffle_transform ?p2t ?p2t
            (SimpleTensor ?img :: (nat list list, nat list list list, unit) input) [2, 0, 1]
          = Inr (SimpleTensor [?img ! 2, ?img ! 0, ?img ! 1]) \<and>
        RandomChannelShuffle_transform ?p2t ?p2t
            (FeaturesImage \<lparr>data = ?img, color_space = NamedSpace ''RGB''\<rparr>
              :: (nat list list, nat list list list, unit) input) [2, 0, 1]
          = Inr (FeaturesImage \<lparr>data = [?img ! 2, ?img ! 0, ?img ! 1], color_space = OTHER\<rparr>) \<and>
        (?p2t ?img = ?img \<longrightarrow>
           RandomChannelShuffle_transform ?p2t ?p2t
               (PILImage ?img :: (nat list list, nat list list list, unit) input) [2, 0, 1]
             = Inr (PILImage (?p2t [?img ! 2, ?img ! 0, ?img ! 1]))) \<and>
        (\<forall>c y x. c < 3 \<longrightarrow>
           pixel [?img ! 2, ?img ! 0, ?img ! 1] c y x = pixel ?img (nat ([2, 0, 1] ! c)) y x)"
    by (rule shuffle_201) (rule len)
  with len show ?thesis by simp
qed

subsection \<open>Photometric distort\<close>

text \<open>
  C9. \<^verbatim>\<open>RandomPhotometricDistort._transform\<close> calls its sub-transforms in the order of
  section 4.5: brightness if its gate is set; contrast if the first contrast gate and
  \<open>contrast_before\<close> are set; saturation twice if its gate is set; contrast if the
  second contrast gate is set and \<open>contrast_before\<close> is not; channel shuffle if its
  gate is set. The hue sub-transform is never called: neither it nor its gate changes
  the result.
\<close>

theorem distort_order:
  "RandomPhotometricDistort_transform self inpt params
     = foldl (call self) inpt (spec_order params) \<and>
   Hue \<notin> set (spec_order params) \<and>
   RandomPhotometricDistort_transform (self\<lparr>sub_hue := h\<rparr>) inpt (params\<lparr>gate_hue := b\<rparr>)
     = RandomPhotometricDistort_transform self inpt params"
  by (simp add: RandomPhotometricDistort_transform_def spec_order_def Let_def)

theorem distort_order_witness:
  "RandomPhotometricDistort_transform sub_recorder []
     \<lparr>gate_brightness = True, gate_contrast1 = True, gate_saturation = True, gate_hue = True,
      gate_contrast2 = True, gate_channel_shuffle = True, contrast_before = False\<rparr>
   = [Brightness, Saturation, Saturation, Contrast, ChannelShuffle]"
  using distort_order [of sub_recorder "[]"
      "\<lparr>gate_brightness = True, gate_contrast1 = True, gate_saturation = True, gate_hue = True,
        gate_contrast2 = True, gate_channel_shuffle = True, contrast_before = False\<rparr>"]
  by (simp add: spec_order_def sub_recorder_def)

subsection \<open>Random equalize\<close>

lemma xle_not_xlt: "xle a b \<Longrightarrow> \<not> xlt b a"
  by (cases a; cases b) auto

text \<open>
  C10. Whatever the draw \<open>u\<close> in \<open>[0, 1)\<close>: with \<open>p = 1.0\<close> the input is replaced by its
  equalized version, with \<open>p = 0.0\<close> it comes back as it was passed in.
\<close>

theorem equalize_gate:
  assumes "unit_interval u"
  shows "RandomEqualize_forward F f_one u inpt = equalize F inpt \<and>
         RandomEqualize_forward F f_zero u inpt = inpt"
  using assms xle_not_xlt [of "xval_of (NumF f_zero)" "xval_of (NumF u)"]
  by (simp add: RandomEqualize_forward_def RandomEqualize_transform_def unit_interval_def
      flt_def fle_def num_le_def)

theorem equalize_gate_witness:
  "unit_interval f_zero \<and>
   RandomEqualize_forward recorder f_one f_zero [] = [Equalize] \<and>
   RandomEqualize_forward recorder f_zero f_zero [] = []"
proof -
  have u: "unit_interval f_zero"
    by (simp add: unit_interval_def fle_def flt_def num_le_def f_zero_def f_one_def units_def)
  from u equalize_gate [OF u, of recorder "[]"] show ?thesis
    by (simp add: recorder_def)
qed

end
